theory Spec2Isabelle
  imports Main "HOL-Library.Sublist"
begin

section \<open>JavaScript strings\<close>

text \<open>
  The orchestrator is the Electron main process (class \<open>PhotoEditorMain\<close>). Its strings
  are modelled as HOL strings read as UTF-8 text: an ASCII character is one \<open>char\<close>, any
  other code point is its UTF-8 byte sequence. Equality, \<open>startsWith\<close>, \<open>endsWith\<close>,
  \<open>includes\<close> and \<open>split\<close> on an ASCII pattern agree between the two views.
\<close>

definition is_ws1 :: "char \<Rightarrow> bool" where
  \<comment> \<open>TAB, LF, VT, FF, CR, SP\<close>
  "is_ws1 a = (a \<in> {CHR 0x09, CHR 0x0A, CHR 0x0B, CHR 0x0C, CHR 0x0D, CHR 0x20})"

definition is_ws2 :: "char \<Rightarrow> char \<Rightarrow> bool" where
  \<comment> \<open>U+00A0\<close>
  "is_ws2 a b = (a = CHR 0xC2 \<and> b = CHR 0xA0)"

definition is_ws3 :: "char \<Rightarrow> char \<Rightarrow> char \<Rightarrow> bool" where
  \<comment> \<open>U+1680, U+2000..U+200A, U+2028, U+2029, U+202F, U+205F, U+3000, U+FEFF\<close>
  "is_ws3 a b c =
     ((a = CHR 0xE1 \<and> b = CHR 0x9A \<and> c = CHR 0x80) \<or>
      (a = CHR 0xE2 \<and> b = CHR 0x80 \<and>
         ((0x80::nat) \<le> of_char c \<and> (of_char c :: nat) \<le> 0x8A \<or> c = CHR 0xA8 \<or> c = CHR 0xA9 \<or> c = CHR 0xAF)) \<or>
      (a = CHR 0xE2 \<and> b = CHR 0x81 \<and> c = CHR 0x9F) \<or>
      (a = CHR 0xE3 \<and> b = CHR 0x80 \<and> c = CHR 0x80) \<or>
      (a = CHR 0xEF \<and> b = CHR 0xBB \<and> c = CHR 0xBF))"

text \<open>\<open>String.prototype.trim\<close>: white space and line terminators go from both ends.\<close>

fun trimStart :: "string \<Rightarrow> string" where
  "trimStart (a # b # c # s) =
     (if is_ws1 a then trimStart (b # c # s)
      else if is_ws2 a b then trimStart (c # s)
      else if is_ws3 a b c then trimStart s
      else a # b # c # s)"
| "trimStart [a, b] =
     (if is_ws1 a then trimStart [b] else if is_ws2 a b then [] else [a, b])"
| "trimStart [a] = (if is_ws1 a then [] else [a])"
| "trimStart [] = []"

fun trimEndRev :: "string \<Rightarrow> string" where
  "trimEndRev (c # b # a # s) =
     (if is_ws1 c then trimEndRev (b # a # s)
      else if is_ws2 b c then trimEndRev (a # s)
      else if is_ws3 a b c then trimEndRev s
      else c # b # a # s)"
| "trimEndRev [c, b] =
     (if is_ws1 c then trimEndRev [b] else if is_ws2 b c then [] else [c, b])"
| "trimEndRev [c] = (if is_ws1 c then [] else [c])"
| "trimEndRev [] = []"

definition trim :: "string \<Rightarrow> string" where
  "trim s = rev (trimEndRev (rev (trimStart s)))"

definition startsWith :: "string \<Rightarrow> string \<Rightarrow> bool" where
  "startsWith s p = prefix p s"

definition endsWith :: "string \<Rightarrow> string \<Rightarrow> bool" where
  "endsWith s p = suffix p s"

text \<open>\<open>String.prototype.includes\<close>: the pattern occurs somewhere in the string.\<close>

fun str_includes :: "string \<Rightarrow> string \<Rightarrow> bool" where
  "str_includes [] p = (p = [])"
| "str_includes (c # cs) p = (prefix p (c # cs) \<or> str_includes cs p)"

text \<open>\<open>output.split('\n')\<close>: the pieces between line feeds; never the empty list.\<close>

fun split_nl :: "string \<Rightarrow> string list" where
  "split_nl [] = [[]]"
| "split_nl (c # cs) =
     (if c = CHR 0x0A then [] # split_nl cs
      else (case split_nl cs of [] \<Rightarrow> [[c]] | l # ls \<Rightarrow> (c # l) # ls))"

section \<open>JSON values and \<open>JSON.parse\<close>\<close>

text \<open>
  A parsed value. A number is kept as the exact decimal \<open>m * 10 ^ e\<close> of its literal,
  not as the double it is rounded to; an object is the list of its own properties in the
  order JavaScript lists them.
\<close>

datatype json =
    JNull
  | JBool bool
  | JNumber int int
  | JString string
  | JArray "json list"
  | JObject "(string \<times> json) list"

text \<open>Reading an own property; \<open>None\<close> stands for \<open>undefined\<close>.\<close>

definition get_prop :: "(string \<times> 'v) list \<Rightarrow> string \<Rightarrow> 'v option" where
  "get_prop kvs k = map_of kvs k"

text \<open>
  Truthiness of a value; \<open>None\<close> stands for \<open>undefined\<close>. A number is falsy when its
  double is zero: the literal is zero, or so small that it rounds to zero (at most
  \<open>2 ^ -1075\<close>, half the least positive double).
\<close>

fun truthy :: "json \<Rightarrow> bool" where
  "truthy JNull = False"
| "truthy (JBool b) = b"
| "truthy (JNumber m e) = (m \<noteq> 0 \<and> (0 \<le> e \<or> 10 ^ nat (- e) < \<bar>m\<bar> * 2 ^ 1075))"
| "truthy (JString s) = (s \<noteq> [])"
| "truthy (JArray xs) = True"
| "truthy (JObject kvs) = True"

definition truthy_opt :: "json option \<Rightarrow> bool" where
  "truthy_opt v = (case v of None \<Rightarrow> False | Some x \<Rightarrow> truthy x)"

subsection \<open>The lexical parts\<close>

definition is_json_ws :: "char \<Rightarrow> bool" where
  "is_json_ws c = (c \<in> {CHR 0x20, CHR 0x09, CHR 0x0A, CHR 0x0D})"

definition skip_ws :: "string \<Rightarrow> string" where
  "skip_ws s = dropWhile is_json_ws s"

definition is_digit :: "char \<Rightarrow> bool" where
  "is_digit c = ((0x30::nat) \<le> of_char c \<and> (of_char c :: nat) \<le> 0x39)"

definition digit_val :: "char \<Rightarrow> nat" where
  "digit_val c = of_char c - 0x30"

definition digits_value :: "string \<Rightarrow> int" where
  "digits_value ds = foldl (\<lambda>n c. 10 * n + int (digit_val c)) 0 ds"

text \<open>
  The order of the own properties of an object: the array indices, the canonical decimal
  texts of the integers up to \<open>2 ^ 32 - 2\<close>, come first in ascending order, then the other
  keys in the order they were created.
\<close>

definition array_index :: "string \<Rightarrow> int option" where
  "array_index k =
     (if k = ''0'' then Some 0
      else if k \<noteq> [] \<and> list_all is_digit k \<and> hd k \<noteq> CHR ''0'' \<and> digits_value k \<le> 4294967294
      then Some (digits_value k)
      else None)"

fun has_prop :: "string \<Rightarrow> (string \<times> 'v) list \<Rightarrow> bool" where
  "has_prop k [] = False"
| "has_prop k ((k', v') # kvs) = (k = k' \<or> has_prop k kvs)"

fun replace_prop :: "string \<Rightarrow> 'v \<Rightarrow> (string \<times> 'v) list \<Rightarrow> (string \<times> 'v) list" where
  "replace_prop k v [] = []"
| "replace_prop k v ((k', v') # kvs) =
     (if k = k' then (k, v) # kvs else (k', v') # replace_prop k v kvs)"

fun insert_index :: "int \<Rightarrow> string \<Rightarrow> 'v \<Rightarrow> (string \<times> 'v) list \<Rightarrow> (string \<times> 'v) list" where
  "insert_index i k v [] = [(k, v)]"
| "insert_index i k v ((k', v') # kvs) =
     (case array_index k' of
        None \<Rightarrow> (k, v) # (k', v') # kvs
      | Some i' \<Rightarrow>
          if i' < i then (k', v') # insert_index i k v kvs else (k, v) # (k', v') # kvs)"

text \<open>
  Assignment to an own property: an existing key keeps its place; a new array index goes
  to its place among the indices; any other new key goes last.
\<close>

definition set_prop :: "string \<Rightarrow> 'v \<Rightarrow> (string \<times> 'v) list \<Rightarrow> (string \<times> 'v) list" where
  "set_prop k v kvs =
     (if has_prop k kvs then replace_prop k v kvs
      else case array_index k of
             None \<Rightarrow> kvs @ [(k, v)]
           | Some i \<Rightarrow> insert_index i k v kvs)"

definition hex_val :: "char \<Rightarrow> nat option" where
  "hex_val c =
     (let n = (of_char c :: nat) in
      if 0x30 \<le> n \<and> n \<le> 0x39 then Some (n - 0x30)
      else if 0x41 \<le> n \<and> n \<le> 0x46 then Some (n - 0x41 + 10)
      else if 0x61 \<le> n \<and> n \<le> 0x66 then Some (n - 0x61 + 10)
      else None)"

definition hex4 :: "char \<Rightarrow> char \<Rightarrow> char \<Rightarrow> char \<Rightarrow> nat option" where
  "hex4 a b c d =
     (case (hex_val a, hex_val b, hex_val c, hex_val d) of
        (Some w, Some x, Some y, Some z) \<Rightarrow> Some (((w * 16 + x) * 16 + y) * 16 + z)
      | _ \<Rightarrow> None)"

text \<open>The UTF-8 bytes of a code point (a lone surrogate is written like any other value).\<close>

definition utf8 :: "nat \<Rightarrow> string" where
  "utf8 n =
     (if n < 0x80 then [char_of n]
      else if n < 0x800 then [char_of (0xC0 + n div 0x40), char_of (0x80 + n mod 0x40)]
      else if n < 0x10000 then
        [char_of (0xE0 + n div 0x1000), char_of (0x80 + (n div 0x40) mod 0x40),
         char_of (0x80 + n mod 0x40)]
      else
        [char_of (0xF0 + n div 0x40000), char_of (0x80 + (n div 0x1000) mod 0x40),
         char_of (0x80 + (n div 0x40) mod 0x40), char_of (0x80 + n mod 0x40)])"

definition simple_escape :: "char \<Rightarrow> char option" where
  "simple_escape e =
     (if e = CHR 0x22 then Some (CHR 0x22)
      else if e = CHR 0x5C then Some (CHR 0x5C)
      else if e = CHR ''/'' then Some (CHR ''/'')
      else if e = CHR ''b'' then Some (CHR 0x08)
      else if e = CHR ''f'' then Some (CHR 0x0C)
      else if e = CHR ''n'' then Some (CHR 0x0A)
      else if e = CHR ''r'' then Some (CHR 0x0D)
      else if e = CHR ''t'' then Some (CHR 0x09)
      else None)"

text \<open>A \<open>\uXXXX\<close> low surrogate at the head of the input, after a high surrogate.\<close>

definition low_surrogate :: "string \<Rightarrow> (nat \<times> string) option" where
  "low_surrogate s =
     (case s of
        b # u # h1 # h2 # h3 # h4 # r \<Rightarrow>
          (if b = CHR 0x5C \<and> u = CHR ''u'' then
             (case hex4 h1 h2 h3 h4 of
                Some m \<Rightarrow> if 0xDC00 \<le> m \<and> m < 0xE000 then Some (m, r) else None
              | None \<Rightarrow> None)
           else None)
      | _ \<Rightarrow> None)"

text \<open>The characters of a string literal after its opening quote, up to the closing one.\<close>

fun parse_chars :: "string \<Rightarrow> (string \<times> string) option" where
  "parse_chars [] = None"
| "parse_chars (c # cs) =
     (if c = CHR 0x22 then Some ([], cs)
      else if c = CHR 0x5C then
        (case cs of
           [] \<Rightarrow> None
         | e # es \<Rightarrow>
             if e = CHR ''u'' then
               (case es of
                  h1 # h2 # h3 # h4 # r \<Rightarrow>
                    (case hex4 h1 h2 h3 h4 of
                       None \<Rightarrow> None
                     | Some n \<Rightarrow>
                         (case (if 0xD800 \<le> n \<and> n < 0xDC00 then low_surrogate r else None) of
                            Some (m, r') \<Rightarrow>
                              map_option
                                (\<lambda>(t, q). (utf8 (0x10000 + (n - 0xD800) * 0x400 + (m - 0xDC00)) @ t, q))
                                (parse_chars (drop 6 r))
                          | None \<Rightarrow> map_option (\<lambda>(t, q). (utf8 n @ t, q)) (parse_chars r)))
                | _ \<Rightarrow> None)
             else
               (case simple_escape e of
                  None \<Rightarrow> None
                | Some x \<Rightarrow> map_option (\<lambda>(t, q). (x # t, q)) (parse_chars es)))
      else if (of_char c :: nat) < 0x20 then None
      else map_option (\<lambda>(t, q). (c # t, q)) (parse_chars cs))"

text \<open>
  A number literal, \<open>-? (0 | [1-9][0-9]*) (. [0-9]+)? ([eE] [+-]? [0-9]+)?\<close>, part by
  part: each part gives what it read and the rest of the text, or \<open>None\<close> when the literal
  is malformed.
\<close>

definition number_sign :: "string \<Rightarrow> bool \<times> string" where
  "number_sign s =
     (case s of
        [] \<Rightarrow> (False, s)
      | c # cs \<Rightarrow> if c = CHR ''-'' then (True, cs) else (False, s))"

definition number_int :: "string \<Rightarrow> (string \<times> string) option" where
  "number_int s =
     (if takeWhile is_digit s = [] then None
      else if length (takeWhile is_digit s) > 1 \<and> hd s = CHR ''0'' then None
      else Some (takeWhile is_digit s, dropWhile is_digit s))"

definition number_frac :: "string \<Rightarrow> (string \<times> string) option" where
  "number_frac s =
     (case s of
        [] \<Rightarrow> Some ([], s)
      | c # cs \<Rightarrow>
          if c = CHR ''.'' then
            (if takeWhile is_digit cs = [] then None
             else Some (takeWhile is_digit cs, dropWhile is_digit cs))
          else Some ([], s))"

definition exp_sign :: "string \<Rightarrow> bool \<times> string" where
  "exp_sign s =
     (case s of
        [] \<Rightarrow> (False, s)
      | c # cs \<Rightarrow>
          if c = CHR ''-'' then (True, cs) else if c = CHR ''+'' then (False, cs) else (False, s))"

definition number_exp :: "string \<Rightarrow> (int \<times> string) option" where
  "number_exp s =
     (case s of
        [] \<Rightarrow> Some (0, s)
      | c # cs \<Rightarrow>
          if c = CHR ''e'' \<or> c = CHR ''E'' then
            (case exp_sign cs of
               (neg, ds) \<Rightarrow>
                 if takeWhile is_digit ds = [] then None
                 else Some ((if neg then - digits_value (takeWhile is_digit ds)
                             else digits_value (takeWhile is_digit ds)),
                            dropWhile is_digit ds))
          else Some (0, s))"

definition parse_number :: "string \<Rightarrow> (json \<times> string) option" where
  "parse_number s =
     (case number_sign s of
        (neg, s1) \<Rightarrow>
          (case number_int s1 of
             None \<Rightarrow> None
           | Some (ip, s2) \<Rightarrow>
               (case number_frac s2 of
                  None \<Rightarrow> None
                | Some (fp, s3) \<Rightarrow>
                    (case number_exp s3 of
                       None \<Rightarrow> None
                     | Some (e, s4) \<Rightarrow>
                         Some (JNumber
                                 (if neg then - digits_value (ip @ fp)
                                  else digits_value (ip @ fp))
                                 (e - int (length fp)),
                               s4)))))"

subsection \<open>Values\<close>

text \<open>
  Recursive descent over the text. The first argument bounds the number of nested calls;
  \<open>JSON_parse\<close> starts with more than any text of that length needs.
\<close>

fun parse_value :: "nat \<Rightarrow> string \<Rightarrow> (json \<times> string) option"
  and parse_elements :: "nat \<Rightarrow> string \<Rightarrow> (json list \<times> string) option"
  and parse_members :: "nat \<Rightarrow> string \<Rightarrow> ((string \<times> json) list \<times> string) option"
where
  "parse_value 0 s = None"
| "parse_value (Suc n) s =
     (case skip_ws s of
        [] \<Rightarrow> None
      | c # cs \<Rightarrow>
          if c = CHR ''{'' then
            (case skip_ws cs of
               [] \<Rightarrow> None
             | d # ds \<Rightarrow>
                 if d = CHR ''}'' then Some (JObject [], ds)
                 else map_option (\<lambda>(kvs, r). (JObject kvs, r)) (parse_members n (d # ds)))
          else if c = CHR ''['' then
            (case skip_ws cs of
               [] \<Rightarrow> None
             | d # ds \<Rightarrow>
                 if d = CHR '']'' then Some (JArray [], ds)
                 else map_option (\<lambda>(vs, r). (JArray vs, r)) (parse_elements n (d # ds)))
          else if c = CHR 0x22 then map_option (\<lambda>(t, r). (JString t, r)) (parse_chars cs)
          else if prefix ''true'' (c # cs) then Some (JBool True, drop 4 (c # cs))
          else if prefix ''false'' (c # cs) then Some (JBool False, drop 5 (c # cs))
          else if prefix ''null'' (c # cs) then Some (JNull, drop 4 (c # cs))
          else parse_number (c # cs))"
| "parse_elements 0 s = None"
| "parse_elements (Suc n) s =
     (case parse_value n s of
        None \<Rightarrow> None
      | Some (v, r) \<Rightarrow>
          (case skip_ws r of
             [] \<Rightarrow> None
           | c # cs \<Rightarrow>
               if c = CHR '','' then map_option (\<lambda>(vs, q). (v # vs, q)) (parse_elements n cs)
               else if c = CHR '']'' then Some ([v], cs)
               else None))"
| "parse_members 0 s = None"
| "parse_members (Suc n) s =
     (case skip_ws s of
        [] \<Rightarrow> None
      | c # cs \<Rightarrow>
          if c \<noteq> CHR 0x22 then None
          else
            (case parse_chars cs of
               None \<Rightarrow> None
             | Some (k, r) \<Rightarrow>
                 (case skip_ws r of
                    [] \<Rightarrow> None
                  | d # ds \<Rightarrow>
                      if d \<noteq> CHR '':'' then None
                      else
                        (case parse_value n ds of
                           None \<Rightarrow> None
                         | Some (v, r2) \<Rightarrow>
                             (case skip_ws r2 of
                                [] \<Rightarrow> None
                              | x # xs \<Rightarrow>
                                  if x = CHR '','' then
                                    map_option (\<lambda>(kvs, q). ((k, v) # kvs, q)) (parse_members n xs)
                                  else if x = CHR ''}'' then Some ([(k, v)], xs)
                                  else None)))))"

text \<open>Two calls per character and two to start are enough for any text.\<close>

primrec fuel_for :: "string \<Rightarrow> nat" where
  "fuel_for [] = Suc (Suc 0)"
| "fuel_for (c # cs) = Suc (Suc (fuel_for cs))"

text \<open>
  The object \<open>JSON.parse\<close> builds: the properties are set one after the other, so a
  repeated key keeps its first place and takes its last value.
\<close>

fun dedup_keys :: "json \<Rightarrow> json" where
  "dedup_keys (JObject kvs) =
     JObject (foldl (\<lambda>acc (k, v). set_prop k v acc) [] (map (\<lambda>(k, v). (k, dedup_keys v)) kvs))"
| "dedup_keys (JArray vs) = JArray (map dedup_keys vs)"
| "dedup_keys v = v"

text \<open>\<open>JSON.parse\<close>: \<open>None\<close> is the \<open>SyntaxError\<close> it throws.\<close>

definition JSON_parse :: "string \<Rightarrow> json option" where
  "JSON_parse s =
     (case parse_value (fuel_for s) s of
        None \<Rightarrow> None
      | Some (v, r) \<Rightarrow> if skip_ws r = [] then Some (dedup_keys v) else None)"


section \<open>The job registry\<close>

datatype status = Pending | Running | Completed | Failed

text \<open>
  The prototype of an object: \<open>Object.prototype\<close> as every object literal has it,
  \<open>null\<close>, or a parsed value (whose own prototype is \<open>Object.prototype\<close> or, for an
  array, \<open>Array.prototype\<close>).
\<close>

datatype proto = ObjectPrototype | NullPrototype | ValuePrototype json

text \<open>
  \<open>ProcessingProgress\<close>. The fields are written from parsed records without a check of
  their type, so they hold JSON values; \<open>None\<close> is a property that is not set.
  \<open>agentStatus\<close> is the list of the own properties of that object and
  \<open>agentStatus_proto\<close> its prototype, which an assignment to \<open>__proto__\<close> can change.
\<close>

record progress =
  stage :: json
  message :: json
  agentStatus :: "(string \<times> json) list"
  agentStatus_proto :: proto
  qualityScore :: "json option"
  strategy :: "json option"

text \<open>A \<open>ChildProcess\<close> handle.\<close>

type_synonym child = nat

text \<open>\<open>ProcessingJob\<close> (the field \<open>id\<close> is \<open>job_id\<close> here).\<close>

record job =
  job_id :: string
  status :: status
  inputPath :: string
  outputPath :: "json option"
  progress :: progress
  process :: "child option"

text \<open>
  What the main process does to the outside: console lines (their first argument), the
  messages sent to the renderer with a snapshot of their payload, signals, new processes
  and directories.
\<close>

datatype effect =
    ConsoleLog string
  | ConsoleError string
  | SendProgress string progress
  | SendCompleted string bool progress "json option"
  | SendError string string
  | Kill child string
  | Spawn string "string list" string "string option" "string option"
  | Mkdir string

text \<open>
  The state of \<open>PhotoEditorMain\<close>: the \<open>jobs\<close> map, whether \<open>mainWindow\<close> is set, and the
  effects so far.
\<close>

record world =
  jobs :: "string \<rightharpoonup> job"
  mainWindow :: bool
  effects :: "effect list"

text \<open>
  What a handler reads from outside the registry: the file system, \<open>os\<close>, \<open>path\<close>, the
  paths found at start-up, \<open>process.env\<close>, the id \<open>generateJobId\<close> draws, and whether
  \<open>spawn\<close>, \<open>mkdirSync\<close> and \<open>kill\<close> throw. \<open>statSync\<close> gives \<open>isFile()\<close>.
\<close>

record env =
  existsSync :: "string \<Rightarrow> bool"
  statSync :: "string \<Rightarrow> bool option"
  mkdirSync :: "string \<Rightarrow> bool"
  readdirSync :: "string \<Rightarrow> string list option"
  tmpdir :: string
  homedir :: string
  dirname :: "string \<Rightarrow> string"
  join :: "string list \<Rightarrow> string"
  delimiter :: string
  pythonExecutable :: string
  projectRoot :: string
  env_PATH :: "string option"
  env_VIRTUAL_ENV :: "string option"
  generateJobId :: string
  spawn :: "child option"
  kill_throws :: bool

definition emit :: "effect \<Rightarrow> world \<Rightarrow> world" where
  "emit e w = w\<lparr>effects := effects w @ [e]\<rparr>"

text \<open>
  \<open>this.mainWindow?.webContents.send(...)\<close>. \<open>mainWindow\<close> is the window being set and
  alive: the state holds no window that was destroyed, on which \<open>send\<close> would throw.
\<close>

definition send :: "effect \<Rightarrow> world \<Rightarrow> world" where
  "send e w = (if mainWindow w then emit e w else w)"

definition put_job :: "string \<Rightarrow> job \<Rightarrow> world \<Rightarrow> world" where
  "put_job jobId j w = w\<lparr>jobs := (jobs w)(jobId \<mapsto> j)\<rparr>"

section \<open>\<open>updateJobProgress\<close>\<close>

definition stageAgentMap :: "(string \<times> string) list" where
  "stageAgentMap =
     [(''analysis'', ''analysis''),
      (''analysis_complete'', ''analysis''),
      (''gemini_editing'', ''gemini''),
      (''gemini_complete'', ''gemini''),
      (''imagemagick_optimization'', ''imagemagick''),
      (''background_removal'', ''background''),
      (''quality_control'', ''qc'')]"

text \<open>
  \<open>stageAgentMap\<close> is an object literal, so a lookup that misses its own entries finds
  the properties of \<open>Object.prototype\<close>: functions, and for \<open>__proto__\<close> the prototype
  itself. Each is truthy; written as a property key it is the text given here.
\<close>

definition native :: "string \<Rightarrow> string" where
  "native f = ''function '' @ f @ ''() { [native code] }''"

definition object_prototype :: "(string \<times> string) list" where
  "object_prototype =
     [(''constructor'', native ''Object''),
      (''__defineGetter__'', native ''__defineGetter__''),
      (''__defineSetter__'', native ''__defineSetter__''),
      (''hasOwnProperty'', native ''hasOwnProperty''),
      (''__lookupGetter__'', native ''__lookupGetter__''),
      (''__lookupSetter__'', native ''__lookupSetter__''),
      (''isPrototypeOf'', native ''isPrototypeOf''),
      (''propertyIsEnumerable'', native ''propertyIsEnumerable''),
      (''toString'', native ''toString''),
      (''valueOf'', native ''valueOf''),
      (''toLocaleString'', native ''toLocaleString''),
      (''__proto__'', ''[object Object]'')]"

text \<open>
  Turning a value into a property key throws a \<open>TypeError\<close> for an object with an own
  \<open>toString\<close> property (a parsed value is never callable, and \<open>valueOf\<close> gives no
  primitive either), and for an array that holds such an object, since the key of an array
  joins the keys of its elements.
\<close>

fun key_throws :: "json \<Rightarrow> bool" where
  "key_throws (JObject kvs) = (get_prop kvs ''toString'' \<noteq> None)"
| "key_throws (JArray vs) = (\<exists>v \<in> set vs. key_throws v)"
| "key_throws v = False"

text \<open>
  The property key a truthy \<open>stage\<close> value turns into when that does not throw, where the
  key can name a property of the table or of the prototype: a string is its own key and
  a one-element array is the key of its element. Every other value gives a key that names
  none (digits or \<open>Infinity\<close> for a number, \<open>true\<close>, \<open>[object Object]\<close>, the empty string
  or a text with a comma for the other arrays).
\<close>

fun stage_key :: "json \<Rightarrow> string option" where
  "stage_key (JString s) = Some s"
| "stage_key (JArray [x]) = (case x of JNull \<Rightarrow> Some [] | _ \<Rightarrow> stage_key x)"
| "stage_key v = None"

text \<open>\<open>stageAgentMap[progressData.stage]\<close>, as the key the status is then written under.\<close>

definition lookup_agent :: "json \<Rightarrow> string option" where
  "lookup_agent st =
     (case stage_key st of
        None \<Rightarrow> None
      | Some k \<Rightarrow>
          (case map_of stageAgentMap k of
             Some a \<Rightarrow> Some a
           | None \<Rightarrow> map_of object_prototype k))"

text \<open>
  \<open>progressData.stage.includes(x)\<close> where an agent was found: a substring test on a
  string, a membership test on an array.
\<close>

fun stage_includes :: "json \<Rightarrow> string \<Rightarrow> bool" where
  "stage_includes (JString s) x = str_includes s x"
| "stage_includes (JArray vs) x = (JString x \<in> set vs)"
| "stage_includes v x = False"

definition stage_status :: "json \<Rightarrow> string" where
  "stage_status st =
     (if stage_includes st ''complete'' then ''completed''
      else if stage_includes st ''failed'' \<or> stage_includes st ''error'' then ''error''
      else ''running'')"

fun show_nat :: "nat \<Rightarrow> string" where
  "show_nat n =
     (if n < 10 then [char_of (0x30 + n)]
      else show_nat (n div 10) @ [char_of (0x30 + n mod 10)])"

text \<open>
  The own enumerable properties \<open>Object.assign\<close> copies from a truthy source: those of an
  object, the indices of an array, the indices of a string (one per character, exact for
  ASCII text), none of a number or \<open>true\<close>.
\<close>

fun own_enumerable :: "json \<Rightarrow> (string \<times> json) list" where
  "own_enumerable (JObject kvs) = kvs"
| "own_enumerable (JArray vs) = zip (map show_nat [0 ..< length vs]) vs"
| "own_enumerable (JString s) = zip (map show_nat [0 ..< length s]) (map (\<lambda>c. JString [c]) s)"
| "own_enumerable v = []"

text \<open>
  Whether the prototype chain above the object holds an own data property \<open>__proto__\<close>
  (a parsed object can have one), and whether it reaches \<open>Object.prototype\<close> with its
  \<open>__proto__\<close> accessor.
\<close>

fun chain_has_proto_data :: "proto \<Rightarrow> bool" where
  "chain_has_proto_data (ValuePrototype (JObject kvs)) = has_prop ''__proto__'' kvs"
| "chain_has_proto_data p = False"

fun chain_has_proto_setter :: "proto \<Rightarrow> bool" where
  "chain_has_proto_setter NullPrototype = False"
| "chain_has_proto_setter p = True"

text \<open>The setter of \<open>__proto__\<close>: an object or \<open>null\<close> becomes the prototype, any other value is ignored.\<close>

fun proto_setter :: "json \<Rightarrow> proto \<Rightarrow> proto" where
  "proto_setter (JObject kvs) p = ValuePrototype (JObject kvs)"
| "proto_setter (JArray vs) p = ValuePrototype (JArray vs)"
| "proto_setter JNull p = NullPrototype"
| "proto_setter v p = p"

text \<open>
  \<open>target[k] = v\<close> as \<open>Object.assign\<close> does it, on the own properties and the prototype of
  the target. The key \<open>__proto__\<close> is an own property when the target has one or when the
  chain holds a data property of that name or no setter; otherwise it goes to the setter
  and no own property is made.
\<close>

definition assign_prop :: "(string \<times> json) list \<times> proto \<Rightarrow> string \<times> json \<Rightarrow> (string \<times> json) list \<times> proto" where
  "assign_prop target kv =
     (case target of
        (own, p) \<Rightarrow>
          (case kv of
             (k, v) \<Rightarrow>
               if k \<noteq> ''__proto__'' then (set_prop k v own, p)
               else if has_prop k own \<or> chain_has_proto_data p \<or> \<not> chain_has_proto_setter p
               then (set_prop k v own, p)
               else (own, proto_setter v p)))"

text \<open>\<open>Object.assign(target, source)\<close>\<close>

definition object_assign :: "(string \<times> json) list \<times> proto \<Rightarrow> json \<Rightarrow> (string \<times> json) list \<times> proto" where
  "object_assign target src = foldl assign_prop target (own_enumerable src)"

text \<open>The \<open>else if (progressData.stage)\<close> branch: the status of the agent the stage maps to.\<close>

definition update_stage :: "json option \<Rightarrow> (string \<times> json) list \<Rightarrow> (string \<times> json) list" where
  "update_stage st ags =
     (case st of
        None \<Rightarrow> ags
      | Some s \<Rightarrow>
          if truthy s then
            (case lookup_agent s of
               None \<Rightarrow> ags
             | Some agent \<Rightarrow> set_prop agent (JString (stage_status s)) ags)
          else ags)"

text \<open>
  A record on which \<open>stageAgentMap[progressData.stage]\<close> throws: \<open>agentStatus\<close> is falsy,
  so the stage branch is taken, and the truthy stage has no property key.
\<close>

definition stage_throws :: "(string \<times> json) list \<Rightarrow> bool" where
  "stage_throws pd =
     (\<not> truthy_opt (get_prop pd ''agentStatus'') \<and>
      (case get_prop pd ''stage'' of None \<Rightarrow> False | Some s \<Rightarrow> truthy s \<and> key_throws s))"

text \<open>
  The first \<open>if\<close>, where the lookup does not throw: a direct agent status update, else
  the stage-based one.
\<close>

definition update_agentStatus :: "(string \<times> json) list \<Rightarrow> (string \<times> json) list \<times> proto \<Rightarrow> (string \<times> json) list \<times> proto" where
  "update_agentStatus pd target =
     (case get_prop pd ''agentStatus'' of
        None \<Rightarrow> (update_stage (get_prop pd ''stage'') (fst target), snd target)
      | Some a \<Rightarrow>
          if truthy a then object_assign target a
          else (update_stage (get_prop pd ''stage'') (fst target), snd target))"

text \<open>\<open>if (v) field = v\<close>, for a field that is always set and for an optional one.\<close>

definition if_truthy :: "json option \<Rightarrow> json \<Rightarrow> json" where
  "if_truthy v old = (case v of None \<Rightarrow> old | Some x \<Rightarrow> if truthy x then x else old)"

definition if_truthy_opt :: "json option \<Rightarrow> json option \<Rightarrow> json option" where
  "if_truthy_opt v old = (case v of None \<Rightarrow> old | Some x \<Rightarrow> if truthy x then Some x else old)"

text \<open>The fields of \<open>job.progress\<close> a record writes.\<close>

definition update_progress :: "(string \<times> json) list \<Rightarrow> progress \<Rightarrow> progress" where
  "update_progress pd p =
     p\<lparr>agentStatus := fst (update_agentStatus pd (agentStatus p, agentStatus_proto p)),
       agentStatus_proto := snd (update_agentStatus pd (agentStatus p, agentStatus_proto p)),
       message := if_truthy (get_prop pd ''message'') (message p),
       stage := if_truthy (get_prop pd ''stage'') (stage p),
       qualityScore :=
         (case get_prop pd ''quality_score'' of None \<Rightarrow> qualityScore p | Some q \<Rightarrow> Some q),
       strategy := if_truthy_opt (get_prop pd ''strategy'') (strategy p)\<rparr>"

text \<open>The job after all the writes of a record.\<close>

definition update_job :: "(string \<times> json) list \<Rightarrow> job \<Rightarrow> job" where
  "update_job pd j =
     j\<lparr>progress := update_progress pd (progress j),
       outputPath := if_truthy_opt (get_prop pd ''output_path'') (outputPath j),
       status := (if truthy_opt (get_prop pd ''success'') then Completed else status j)\<rparr>"

text \<open>The writes of \<open>updateJobProgress\<close> on the job \<open>j\<close> and its message to the renderer.\<close>

definition write_record :: "world \<Rightarrow> string \<Rightarrow> job \<Rightarrow> (string \<times> json) list \<Rightarrow> world" where
  "write_record w jobId j pd =
     send (SendProgress jobId (progress (update_job pd j))) (put_job jobId (update_job pd j) w)"

text \<open>
  \<open>updateJobProgress(jobId, progressData)\<close>, \<open>progressData\<close> being the properties of the
  parsed object: the new state, or \<open>None\<close> for the \<open>TypeError\<close> of the lookup
  \<open>stageAgentMap[progressData.stage]\<close>. On a parsed record the lookup is the one statement
  that can throw (\<open>includes\<close> is called on a string or an array only, since no other stage
  finds an agent), and it comes before every write, so a call that throws leaves the state
  as it was.
\<close>

definition updateJobProgress :: "world \<Rightarrow> string \<Rightarrow> (string \<times> json) list \<Rightarrow> world option" where
  "updateJobProgress w jobId pd =
     (case jobs w jobId of
        None \<Rightarrow> Some w
      | Some j \<Rightarrow> if stage_throws pd then None else Some (write_record w jobId j pd))"

section \<open>\<open>handleProcessOutput\<close>\<close>

text \<open>
  The \<open>try\<close> block of one line, with what \<open>JSON.parse\<close> gave: \<open>None\<close> is a throw into the
  \<open>catch\<close>, by \<open>JSON.parse\<close> or by \<open>updateJobProgress\<close>. A text that starts with a brace
  parses to an object or not at all; for the other values \<open>JSON.parse\<close> can give, reading
  a property of \<open>null\<close> throws and the rest have none of the properties read.
\<close>

definition try_record :: "world \<Rightarrow> string \<Rightarrow> json option \<Rightarrow> world option" where
  "try_record w jobId parsed =
     (case parsed of
        None \<Rightarrow> None
      | Some JNull \<Rightarrow> None
      | Some (JObject pd) \<Rightarrow> updateJobProgress w jobId pd
      | Some _ \<Rightarrow> updateJobProgress w jobId [])"

text \<open>One line of the loop.\<close>

definition process_line :: "string \<Rightarrow> world \<Rightarrow> string \<Rightarrow> world" where
  "process_line jobId w line =
     (if startsWith (trim line) ''{'' \<and> endsWith (trim line) ''}'' then
        (case try_record w jobId (JSON_parse (trim line)) of
           None \<Rightarrow> emit (ConsoleLog (''Job '' @ jobId @ '' non-JSON output: '' @ line)) w
         | Some w' \<Rightarrow> w')
      else emit (ConsoleLog (''Job '' @ jobId @ '' output: '' @ line)) w)"

text \<open>\<open>output.split('\n').filter(line => line.trim())\<close>\<close>

definition output_lines :: "string \<Rightarrow> string list" where
  "output_lines output = filter (\<lambda>line. trim line \<noteq> []) (split_nl output)"

definition handleProcessOutput :: "world \<Rightarrow> string \<Rightarrow> string \<Rightarrow> world" where
  "handleProcessOutput w jobId output =
     (case jobs w jobId of
        None \<Rightarrow> w
      | Some j \<Rightarrow> foldl (process_line jobId) w (output_lines output))"

section \<open>\<open>handleProcessError\<close>, the \<open>close\<close> handler, \<open>cancelJob\<close>\<close>

definition handleProcessError :: "world \<Rightarrow> string \<Rightarrow> string \<Rightarrow> world" where
  "handleProcessError w jobId err =
     (case jobs w jobId of
        None \<Rightarrow> w
      | Some j \<Rightarrow>
          send (SendError jobId err)
            (put_job jobId (j\<lparr>progress := (progress j)\<lparr>message := JString (''Error: '' @ err)\<rparr>\<rparr>) w))"

definition to_lower :: "char \<Rightarrow> char" where
  "to_lower c =
     (if (0x41::nat) \<le> of_char c \<and> (of_char c :: nat) \<le> 0x5A then char_of (of_char c + (0x20::nat)) else c)"

text \<open>The test \<open>/\.(jpg|jpeg|png|webp)$/i\<close> on a file name.\<close>

definition is_image_file :: "string \<Rightarrow> bool" where
  "is_image_file f =
     (\<exists>ext \<in> set [''.jpg'', ''.jpeg'', ''.png'', ''.webp'']. suffix ext (map to_lower f))"

text \<open>
  The scan of the output directory after exit code 0: the new \<open>outputPath\<close>, and whether
  the \<open>catch\<close> ran (\<open>readdirSync\<close> throws on a path that is no string or no directory).
\<close>

definition find_output :: "env \<Rightarrow> json \<Rightarrow> json \<times> bool" where
  "find_output e out =
     (case out of
        JString p \<Rightarrow>
          (case readdirSync e p of
             None \<Rightarrow> (out, True)
           | Some files \<Rightarrow>
               (case filter is_image_file files of
                  [] \<Rightarrow> (out, False)
                | f # fs \<Rightarrow> (JString (join e [p, f]), False)))
      | _ \<Rightarrow> (out, True))"

text \<open>
  \<open>childProcess.on('close', (code) => ...)\<close> for the job started as \<open>jobId\<close>; \<open>code\<close> is
  \<open>None\<close> when a signal ended the process.
\<close>

definition onClose :: "env \<Rightarrow> world \<Rightarrow> string \<Rightarrow> int option \<Rightarrow> world" where
  "onClose e w jobId code =
     (case jobs w jobId of
        None \<Rightarrow> w
      | Some j \<Rightarrow>
          (let j1 = j\<lparr>status := (if code = Some 0 then Completed else Failed), process := None\<rparr>;
               scan = (if code = Some 0 then if_truthy_opt (outputPath j1) None else None);
               j2 = (case scan of None \<Rightarrow> j1 | Some out \<Rightarrow> j1\<lparr>outputPath := Some (fst (find_output e out))\<rparr>);
               w1 = (case scan of
                       None \<Rightarrow> w
                     | Some out \<Rightarrow>
                         if snd (find_output e out)
                         then emit (ConsoleError ''Failed to find output file:'') w else w)
           in send (SendCompleted jobId (code = Some 0) (progress j2) (outputPath j2))
                (put_job jobId j2 w1)))"

text \<open>\<open>cancelJob(jobId)\<close>: the result and the new state.\<close>

definition cancelJob :: "env \<Rightarrow> world \<Rightarrow> string \<Rightarrow> bool \<times> world" where
  "cancelJob e w jobId =
     (case jobs w jobId of
        None \<Rightarrow> (False, w)
      | Some j \<Rightarrow>
          (case process j of
             None \<Rightarrow> (False, w)
           | Some p \<Rightarrow>
               if kill_throws e
               then (False, emit (ConsoleError (''Failed to cancel job '' @ jobId @ '':'')) w)
               else (True,
                     put_job jobId
                       (j\<lparr>status := Failed,
                          progress := (progress j)\<lparr>message := JString ''Processing cancelled by user''\<rparr>\<rparr>)
                       (emit (Kill p ''SIGTERM'') w))))"

section \<open>\<open>startProcessing\<close>\<close>

datatype mode = Single | Batch

text \<open>The \<open>options\<close> argument.\<close>

record options =
  o_inputPath :: string
  o_outputDir :: "string option"
  o_instructions :: "string option"
  o_mode :: mode

text \<open>What a rejected call throws: an \<open>Error\<close> with its message, or what \<open>fs\<close> or \<open>spawn\<close> threw.\<close>

datatype error = Error string | FsError | SpawnError

definition initial_job :: "string \<Rightarrow> string \<Rightarrow> job" where
  "initial_job jobId path =
     \<lparr>job_id = jobId, status = Pending, inputPath = path, outputPath = None,
      progress =
        \<lparr>stage = JString ''initializing'', message = JString ''Starting processing...'',
         agentStatus =
           [(''analysis'', JString ''pending''), (''background'', JString ''pending''),
            (''gemini'', JString ''pending''), (''imagemagick'', JString ''pending''),
            (''qc'', JString ''pending'')],
         agentStatus_proto = ObjectPrototype,
         qualityScore = None, strategy = None\<rparr>,
      process = None\<rparr>"

text \<open>The output directory from the input path; \<open>None\<close> when \<open>statSync\<close> throws.\<close>

definition outputDir_of_input :: "env \<Rightarrow> string \<Rightarrow> string option" where
  "outputDir_of_input e path =
     (case statSync e path of
        None \<Rightarrow> None
      | Some isFile \<Rightarrow>
          if isFile then
            (let d = dirname e path in
             if str_includes d (tmpdir e) \<or> str_includes d ''temp'' \<or> str_includes d ''Temp''
             then
               (if existsSync e (join e [homedir e, ''Pictures''])
                then Some (join e [homedir e, ''Pictures'', ''Agentic Photo Editor''])
                else Some (join e [homedir e, ''Documents'', ''Agentic Photo Editor'']))
             else Some d)
          else Some path)"

definition resolve_outputDir :: "env \<Rightarrow> options \<Rightarrow> string option" where
  "resolve_outputDir e opts =
     (case o_outputDir opts of
        None \<Rightarrow> outputDir_of_input e (o_inputPath opts)
      | Some d \<Rightarrow> if d \<noteq> [] then Some d else outputDir_of_input e (o_inputPath opts))"

definition unwords :: "string list \<Rightarrow> string" where
  "unwords xs = concat (case xs of [] \<Rightarrow> [] | x # ys \<Rightarrow> x # map (\<lambda>y. '' '' @ y) ys)"

text \<open>The argument vector of the worker.\<close>

definition build_args :: "options \<Rightarrow> string \<Rightarrow> string list" where
  "build_args opts outputDir =
     [''photo_editor.py'']
     @ (if o_mode opts = Single then [''process'', o_inputPath opts]
        else [''batch'', o_inputPath opts])
     @ [''--output-dir'', outputDir, ''--json-output'']
     @ (case o_instructions opts of
          None \<Rightarrow> []
        | Some i \<Rightarrow> if i \<noteq> [] \<and> trim i \<noteq> [] then [''--instructions'', i] else [])"

definition or_undefined :: "string option \<Rightarrow> string" where
  "or_undefined v = (case v of None \<Rightarrow> ''undefined'' | Some x \<Rightarrow> x)"

text \<open>\<open>PATH\<close> and \<open>VIRTUAL_ENV\<close> of the environment the worker gets.\<close>

definition process_PATH :: "env \<Rightarrow> string option" where
  "process_PATH e =
     (if str_includes (pythonExecutable e) ''venv''
      then Some (dirname e (pythonExecutable e) @ delimiter e @ or_undefined (env_PATH e))
      else env_PATH e)"

definition process_VIRTUAL_ENV :: "env \<Rightarrow> string option" where
  "process_VIRTUAL_ENV e =
     (if str_includes (pythonExecutable e) ''venv''
      then Some (dirname e (dirname e (pythonExecutable e)))
      else env_VIRTUAL_ENV e)"

text \<open>From \<open>try { spawn(...)\<close> on: the job is in the registry with its output directory.\<close>

definition spawn_job :: "env \<Rightarrow> world \<Rightarrow> job \<Rightarrow> string list \<Rightarrow> (error + string) \<times> world" where
  "spawn_job e w j args =
     (case spawn e of
        None \<Rightarrow>
          (Inl SpawnError,
           emit (ConsoleError ''Failed to start processing:'')
             (put_job (job_id j) (j\<lparr>status := Failed\<rparr>) w))
      | Some c \<Rightarrow>
          (Inr (job_id j),
           put_job (job_id j) (j\<lparr>process := Some c, status := Running\<rparr>)
             (emit (Spawn (pythonExecutable e) args (projectRoot e) (process_PATH e)
                      (process_VIRTUAL_ENV e)) w)))"

text \<open>From the output directory on: \<open>mkdirSync\<close>, the arguments, the console lines, the spawn.\<close>

definition launch :: "env \<Rightarrow> world \<Rightarrow> options \<Rightarrow> job \<Rightarrow> string \<Rightarrow> (error + string) \<times> world" where
  "launch e w opts j outputDir =
     (if \<not> existsSync e outputDir \<and> \<not> mkdirSync e outputDir then (Inl FsError, w)
      else
        (let w1 = (if existsSync e outputDir then w else emit (Mkdir outputDir) w);
             j1 = j\<lparr>outputPath := Some (JString outputDir)\<rparr>;
             args = build_args opts outputDir;
             w2 = foldl (\<lambda>v l. emit (ConsoleLog l) v) (put_job (job_id j) j1 w1)
                    [''Processing options:'', ''Command args:'',
                     ''Starting process: '' @ pythonExecutable e @ '' '' @ unwords args,
                     ''Working directory: '' @ projectRoot e,
                     ''Environment VIRTUAL_ENV: '' @ or_undefined (process_VIRTUAL_ENV e)]
         in spawn_job e w2 j1 args))"

text \<open>\<open>startProcessing(options)\<close>: the job id or what the call throws, and the new state.\<close>

definition startProcessing :: "env \<Rightarrow> world \<Rightarrow> options \<Rightarrow> (error + string) \<times> world" where
  "startProcessing e w opts =
     (if o_inputPath opts = [] \<or> trim (o_inputPath opts) = [] then
        (Inl (Error ''Input path is required and cannot be empty''), w)
      else if \<not> existsSync e (o_inputPath opts) then
        (Inl (Error (''Input path does not exist: '' @ o_inputPath opts)), w)
      else
        (let j = initial_job (generateJobId e) (o_inputPath opts);
             w1 = put_job (generateJobId e) j w
         in case resolve_outputDir e opts of
              None \<Rightarrow> (Inl FsError, w1)
            | Some outputDir \<Rightarrow> launch e w1 opts j outputDir))"

section \<open>Runs of the event loop\<close>

text \<open>
  The callbacks that reach a job after its start: a chunk on stdout, a chunk on stderr,
  the \<open>close\<close> of its process, and a \<open>cancel-job\<close> request. Each runs to its end before
  the next one starts.
\<close>

datatype action =
    Stdout string string
  | Stderr string string
  | Close string "int option"
  | Cancel string

fun step :: "world \<Rightarrow> env \<times> action \<Rightarrow> world" where
  "step w (e, Stdout jobId chunk) = handleProcessOutput w jobId chunk"
| "step w (e, Stderr jobId chunk) =
     handleProcessError (emit (ConsoleError (''Job '' @ jobId @ '' error:'')) w) jobId chunk"
| "step w (e, Close jobId code) = onClose e w jobId code"
| "step w (e, Cancel jobId) = snd (cancelJob e w jobId)"

definition run :: "world \<Rightarrow> (env \<times> action) list \<Rightarrow> world" where
  "run w acts = foldl step w acts"

text \<open>Reading one job of the registry.\<close>

definition status_of :: "world \<Rightarrow> string \<Rightarrow> status option" where
  "status_of w jobId = map_option status (jobs w jobId)"

definition terminal :: "status \<Rightarrow> bool" where
  "terminal s = (s = Completed \<or> s = Failed)"

section \<open>Notions the properties are stated with\<close>

text \<open>Lines put back into one chunk, a line feed between two of them.\<close>

fun join_nl :: "string list \<Rightarrow> string" where
  "join_nl [] = []"
| "join_nl [l] = l"
| "join_nl (l # m # ls) = l @ CHR 0x0A # join_nl (m # ls)"

text \<open>
  A line \<open>handleProcessOutput\<close> takes as a structured record: braces at both ends of the
  trimmed text, and \<open>JSON.parse\<close> gives an object.
\<close>

definition structured :: "string \<Rightarrow> bool" where
  "structured line =
     (startsWith (trim line) ''{'' \<and> endsWith (trim line) ''}'' \<and>
      JSON_parse (trim line) \<noteq> None \<and> JSON_parse (trim line) \<noteq> Some JNull)"

text \<open>A text made of white space only: some sequence of white space characters.\<close>

definition is_ws_seq :: "string \<Rightarrow> bool" where
  "is_ws_seq u =
     (case u of
        [a] \<Rightarrow> is_ws1 a
      | [a, b] \<Rightarrow> is_ws2 a b
      | [a, b, c] \<Rightarrow> is_ws3 a b c
      | _ \<Rightarrow> False)"

definition whitespace_only :: "string \<Rightarrow> bool" where
  "whitespace_only s = (\<exists>us. s = concat us \<and> list_all is_ws_seq us)"

fun is_console :: "effect \<Rightarrow> bool" where
  "is_console (ConsoleLog l) = True"
| "is_console (ConsoleError l) = True"
| "is_console x = False"

text \<open>What leaves the main process other than console lines.\<close>

definition outward :: "world \<Rightarrow> effect list" where
  "outward w = filter (\<lambda>x. \<not> is_console x) (effects w)"

fun is_spawn :: "effect \<Rightarrow> bool" where
  "is_spawn (Spawn cmd args cwd p v) = True"
| "is_spawn x = False"

definition running_jobs :: "world \<Rightarrow> string set" where
  "running_jobs w = {k. status_of w k = Some Running}"

text \<open>A change of status that keeps it or ends in completed or failed.\<close>

definition moves :: "status \<Rightarrow> status \<Rightarrow> bool" where
  "moves s s' = (s' = s \<or> terminal s')"

text \<open>Two states with the same registry, window and outward effects.\<close>

definition same :: "world \<Rightarrow> world \<Rightarrow> bool" where
  "same w v = (jobs w = jobs v \<and> mainWindow w = mainWindow v \<and> outward w = outward v)"

section \<open>A concrete machine\<close>

text \<open>
  A POSIX file system with one directory of ten photographs, and the registry after a
  single-file job was started there.
\<close>

definition photos :: "string list" where
  "photos =
     [''p01.jpg'', ''p02.jpg'', ''p03.jpg'', ''p04.jpg'', ''p05.jpg'',
      ''p06.jpg'', ''p07.jpg'', ''p08.jpg'', ''p09.jpg'', ''p10.jpg'']"

definition posix_join :: "string list \<Rightarrow> string" where
  "posix_join xs = concat (case xs of [] \<Rightarrow> [] | x # ys \<Rightarrow> x # map (\<lambda>y. ''/'' @ y) ys)"

definition posix_dirname :: "string \<Rightarrow> string" where
  "posix_dirname p = rev (tl (dropWhile (\<lambda>c. c \<noteq> CHR ''/'') (rev p)))"

definition posix_env :: env where
  "posix_env =
     \<lparr>existsSync = (\<lambda>p. p = ''/photos'' \<or> p \<in> set (map (\<lambda>f. ''/photos/'' @ f) photos)),
      statSync = (\<lambda>p. if p = ''/photos'' then Some False
                       else if p \<in> set (map (\<lambda>f. ''/photos/'' @ f) photos) then Some True
                       else None),
      mkdirSync = (\<lambda>p. True),
      readdirSync = (\<lambda>p. if p = ''/photos'' then Some photos else None),
      tmpdir = ''/tmp'',
      homedir = ''/home/u'',
      dirname = posix_dirname,
      join = posix_join,
      delimiter = '':'',
      pythonExecutable = ''python3'',
      projectRoot = ''/app'',
      env_PATH = Some ''/usr/bin'',
      env_VIRTUAL_ENV = None,
      generateJobId = ''job_1'',
      spawn = Some 1,
      kill_throws = False\<rparr>"

text \<open>Requests: one photograph of the directory, and the directory as a batch.\<close>

definition file_opts :: "string \<Rightarrow> options" where
  "file_opts f =
     \<lparr>o_inputPath = ''/photos/'' @ f, o_outputDir = None, o_instructions = None, o_mode = Single\<rparr>"

definition batch_opts :: options where
  "batch_opts =
     \<lparr>o_inputPath = ''/photos'', o_outputDir = None, o_instructions = None, o_mode = Batch\<rparr>"

text \<open>The machine at a call that draws the id \<open>jobId\<close> and whose \<open>spawn\<close> returns \<open>c\<close>.\<close>

definition env_for :: "string \<Rightarrow> child \<Rightarrow> env" where
  "env_for jobId c = posix_env\<lparr>generateJobId := jobId, spawn := Some c\<rparr>"

text \<open>
  The loop of the renderer over the selected files, \<open>for (const file of selectedFiles)
  await startProcessing(...)\<close>: one call after the other, each on its machine.
\<close>

definition start_each :: "world \<Rightarrow> (env \<times> options) list \<Rightarrow> world" where
  "start_each w calls = foldl (\<lambda>v (e, opts). snd (startProcessing e v opts)) w calls"

definition empty_world :: world where
  "empty_world = \<lparr>jobs = Map.empty, mainWindow = True, effects = []\<rparr>"

definition running_job :: job where
  "running_job =
     (initial_job ''job_1'' ''/photos/p01.jpg'')
       \<lparr>outputPath := Some (JString ''/photos''), process := Some 1, status := Running\<rparr>"

definition running_world :: world where
  "running_world = \<lparr>jobs = [''job_1'' \<mapsto> running_job], mainWindow = True, effects = []\<rparr>"

section \<open>Basic facts about the state\<close>

lemma jobs_emit [simp]: "jobs (emit x w) = jobs w"
  by (simp add: emit_def)

lemma jobs_send [simp]: "jobs (send x w) = jobs w"
  by (simp add: send_def)

lemma jobs_put_job [simp]: "jobs (put_job k j w) = (jobs w)(k \<mapsto> j)"
  by (simp add: put_job_def)

lemma mainWindow_emit [simp]: "mainWindow (emit x w) = mainWindow w"
  by (simp add: emit_def)

lemma mainWindow_send [simp]: "mainWindow (send x w) = mainWindow w"
  by (simp add: send_def)

lemma mainWindow_put_job [simp]: "mainWindow (put_job k j w) = mainWindow w"
  by (simp add: put_job_def)

lemma effects_emit [simp]: "effects (emit x w) = effects w @ [x]"
  by (simp add: emit_def)

lemma effects_send [simp]: "effects (send x w) = effects w @ (if mainWindow w then [x] else [])"
  by (simp add: send_def)

lemma effects_put_job [simp]: "effects (put_job k j w) = effects w"
  by (simp add: put_job_def)

lemma status_update_job:
  "status (update_job pd j) = (if truthy_opt (get_prop pd ''success'') then Completed else status j)"
  by (simp add: update_job_def)

lemma process_update_job [simp]: "process (update_job pd j) = process j"
  by (simp add: update_job_def)

lemma jobs_write_record [simp]: "jobs (write_record w k j pd) = (jobs w)(k \<mapsto> update_job pd j)"
  by (simp add: write_record_def)

lemma mainWindow_write_record [simp]: "mainWindow (write_record w k j pd) = mainWindow w"
  by (simp add: write_record_def)

lemma status_of_write_record:
  "status_of (write_record w k j pd) k' =
     (if k' = k then Some (if truthy_opt (get_prop pd ''success'') then Completed else status j)
      else status_of w k')"
  by (simp add: status_of_def status_update_job)

lemma updateJobProgress_Some:
  "jobs w k = Some j \<Longrightarrow> \<not> stage_throws pd \<Longrightarrow>
   updateJobProgress w k pd = Some (write_record w k j pd)"
  by (simp add: updateJobProgress_def)

lemma updateJobProgress_None:
  "jobs w k = Some j \<Longrightarrow> stage_throws pd \<Longrightarrow> updateJobProgress w k pd = None"
  by (simp add: updateJobProgress_def)

lemma updateJobProgress_cases:
  "updateJobProgress w k pd = Some w1 \<Longrightarrow>
   (jobs w k = None \<and> w1 = w) \<or>
   (\<exists>j. jobs w k = Some j \<and> \<not> stage_throws pd \<and> w1 = write_record w k j pd)"
  by (auto simp: updateJobProgress_def split: option.splits if_splits)

lemma status_of_updateJobProgress:
  "updateJobProgress w k pd = Some w1 \<Longrightarrow>
   status_of w1 k' =
     (if k' = k \<and> truthy_opt (get_prop pd ''success'') \<and> jobs w k \<noteq> None then Some Completed
      else status_of w k')"
  using updateJobProgress_cases [of w k pd w1]
  by (auto simp: status_of_write_record) (auto simp: status_of_def)

lemma try_record_Some:
  "try_record w k parsed = Some w1 \<Longrightarrow> \<exists>pd. updateJobProgress w k pd = Some w1"
  by (auto simp: try_record_def split: option.splits json.splits)

lemma process_line_cases:
  "(\<exists>m. process_line k w l = emit (ConsoleLog m) w) \<or>
   (\<exists>pd. updateJobProgress w k pd = Some (process_line k w l))"
  by (auto simp: process_line_def dest: try_record_Some split: option.splits)

lemma agent_found_stage:
  "lookup_agent s = Some a \<Longrightarrow> (\<exists>t. s = JString t) \<or> (\<exists>vs. s = JArray vs)"
  by (cases s) (simp_all add: lookup_agent_def)

lemma has_prop_keys: "has_prop k kvs = (k \<in> fst ` set kvs)"
  by (induction kvs) auto

lemma get_replace_prop: "has_prop k kvs \<Longrightarrow> get_prop (replace_prop k v kvs) k = Some v"
  by (induction kvs) (auto simp: get_prop_def)

lemma get_insert_index: "\<not> has_prop k kvs \<Longrightarrow> get_prop (insert_index i k v kvs) k = Some v"
  by (induction kvs) (auto simp: get_prop_def split: option.splits)

lemma get_append_prop: "\<not> has_prop k kvs \<Longrightarrow> get_prop (kvs @ [(k, v)]) k = Some v"
  by (induction kvs) (auto simp: get_prop_def)

lemma get_set_prop [simp]: "get_prop (set_prop k v kvs) k = Some v"
  by (simp add: set_prop_def get_replace_prop get_insert_index get_append_prop
      split: option.splits)

lemma no_throw_success_true: "\<not> stage_throws [(''success'', JBool True)]"
  by (simp add: stage_throws_def get_prop_def)

lemma status_of_onClose:
  "status_of (onClose e w k code) k' =
     (if k' = k \<and> jobs w k \<noteq> None then Some (if code = Some 0 then Completed else Failed)
      else status_of w k')"
  by (auto simp: status_of_def onClose_def Let_def split: option.splits)

lemma status_of_cancelJob:
  "status_of (snd (cancelJob e w k)) k' =
     (if k' = k \<and> (\<exists>j. jobs w k = Some j \<and> process j \<noteq> None) \<and> \<not> kill_throws e then Some Failed
      else status_of w k')"
  by (auto simp: status_of_def cancelJob_def split: option.splits)

lemma status_of_handleProcessError:
  "status_of (handleProcessError w k err) k' = status_of w k'"
  by (auto simp: status_of_def handleProcessError_def split: option.splits)

lemma status_of_emit [simp]: "status_of (emit x w) k = status_of w k"
  by (simp add: status_of_def)

lemma jobs_running_world: "jobs running_world ''job_1'' = Some running_job"
  by (simp add: running_world_def)

subsection \<open>The line \<open>{"success":true}\<close>\<close>

lemma parse_success_true:
  \<open>JSON_parse ''{"success":true}'' = Some (JObject [(''success'', JBool True)])\<close>
  by code_simp

lemma trim_success_true: \<open>trim ''{"success":true}'' = ''{"success":true}''\<close>
  by code_simp

lemma lines_success_true: \<open>output_lines ''{"success":true}'' = [''{"success":true}'']\<close>
  by code_simp

lemma stdout_success_true:
  \<open>jobs w k = Some j \<Longrightarrow>
   handleProcessOutput w k ''{"success":true}'' = write_record w k j [(''success'', JBool True)]\<close>
  by (simp add: handleProcessOutput_def lines_success_true process_line_def trim_success_true
      parse_success_true startsWith_def endsWith_def suffix_def try_record_def
      updateJobProgress_Some no_throw_success_true)

lemma truthy_success_true: "truthy_opt (get_prop [(''success'', JBool True)] ''success'')"
  by (simp add: truthy_opt_def get_prop_def)

lemma process_running_job: "process running_job = Some 1"
  by (simp add: running_job_def)

lemma kill_posix_env: "\<not> kill_throws posix_env"
  by (simp add: posix_env_def)

lemma stdout_one_record:
  assumes "jobs w k = Some j" and "\<not> stage_throws pd" and "output_lines l = [l]" and "trim l = l"
    and "startsWith l ''{''" and "endsWith l ''}''" and "JSON_parse l = Some (JObject pd)"
  shows "handleProcessOutput w k l = write_record w k j pd"
  using assms
  by (simp add: handleProcessOutput_def process_line_def try_record_def updateJobProgress_Some)

subsection \<open>The status along a run\<close>

lemma moves_refl [simp]: "moves s s"
  by (simp add: moves_def)

lemma moves_trans: "moves s s' \<Longrightarrow> moves s' s'' \<Longrightarrow> moves s s''"
  by (auto simp: moves_def)

lemma moves_terminal [simp]: "moves s Completed" "moves s Failed"
  by (simp_all add: moves_def terminal_def)

lemma process_line_moves:
  "status_of w k' = Some s \<Longrightarrow> \<exists>s'. status_of (process_line k w l) k' = Some s' \<and> moves s s'"
  using process_line_cases [of k w l]
  by (auto simp: status_of_updateJobProgress)

lemma process_lines_moves:
  "status_of w k' = Some s \<Longrightarrow> \<exists>s'. status_of (foldl (process_line k) w ls) k' = Some s' \<and> moves s s'"
proof (induction ls arbitrary: w s)
  case Nil
  then show ?case by simp
next
  case (Cons l ls)
  from process_line_moves [OF Cons.prems]
  obtain s1 where s1: "status_of (process_line k w l) k' = Some s1" "moves s s1" by blast
  from Cons.IH [OF s1(1)]
  obtain s2 where "status_of (foldl (process_line k) (process_line k w l) ls) k' = Some s2" "moves s1 s2"
    by blast
  with s1 show ?case by (auto intro: moves_trans)
qed

lemma step_moves:
  "status_of w k' = Some s \<Longrightarrow> \<exists>s'. status_of (step w ea) k' = Some s' \<and> moves s s'"
proof (cases ea)
  case (Pair e a)
  assume s: "status_of w k' = Some s"
  show ?thesis
  proof (cases a)
    case (Stdout k chunk)
    with Pair s process_lines_moves [OF s] show ?thesis
      by (auto simp: handleProcessOutput_def split: option.splits)
  next
    case (Stderr k chunk)
    with Pair s show ?thesis by (simp add: status_of_handleProcessError)
  next
    case (Close k code)
    with Pair s show ?thesis by (simp add: status_of_onClose)
  next
    case (Cancel k)
    with Pair s show ?thesis by (simp add: status_of_cancelJob)
  qed
qed

lemma run_moves:
  "status_of w k = Some s \<Longrightarrow> \<exists>s'. status_of (run w acts) k = Some s' \<and> moves s s'"
  unfolding run_def
proof (induction acts arbitrary: w s)
  case Nil
  then show ?case by simp
next
  case (Cons a acts)
  from step_moves [OF Cons.prems]
  obtain s1 where s1: "status_of (step w a) k = Some s1" "moves s s1" by blast
  from Cons.IH [OF s1(1)]
  obtain s2 where "status_of (foldl step (step w a) acts) k = Some s2" "moves s1 s2" by blast
  with s1 show ?case by (auto intro: moves_trans)
qed

subsection \<open>Lines of a chunk\<close>

lemma split_nl_not_Nil [simp]: "split_nl s \<noteq> []"
  by (induction s) (auto split: list.splits)

lemma split_nl_append: "split_nl (a @ CHR 0x0A # b) = split_nl a @ split_nl b"
  by (induction a) (auto split: list.splits)

lemma split_nl_line: "CHR 0x0A \<notin> set l \<Longrightarrow> split_nl l = [l]"
  by (induction l) auto

lemma split_join_nl:
  "ls \<noteq> [] \<Longrightarrow> \<forall>l \<in> set ls. CHR 0x0A \<notin> set l \<Longrightarrow> split_nl (join_nl ls) = ls"
  by (induction ls rule: join_nl.induct) (simp_all add: split_nl_line split_nl_append)

lemma trim_Nil [simp]: "trim [] = []"
  by (simp add: trim_def)

lemma output_lines_Nil [simp]: "output_lines [] = []"
  by (simp add: output_lines_def)

lemma output_lines_join:
  "\<forall>l \<in> set ls. CHR 0x0A \<notin> set l \<Longrightarrow> output_lines (join_nl ls) = filter (\<lambda>l. trim l \<noteq> []) ls"
  by (cases "ls = []") (simp_all add: output_lines_def split_join_nl)

lemma output_lines_append:
  "output_lines (a @ CHR 0x0A # b) = output_lines a @ output_lines b"
  by (simp add: output_lines_def split_nl_append)

lemma structured_not_blank: "structured l \<Longrightarrow> trim l \<noteq> []"
  by (auto simp: structured_def startsWith_def)

lemma same_refl [simp]: "same w w"
  by (simp add: same_def)

lemma same_console: "same w v \<Longrightarrow> same (emit (ConsoleLog m) w) v"
  by (simp add: same_def outward_def)

lemma same_write_record:
  "same w v \<Longrightarrow> same (write_record w k j pd) (write_record v k j pd)"
  by (auto simp: same_def write_record_def outward_def)

lemma same_jobs: "same w v \<Longrightarrow> jobs w = jobs v"
  by (simp add: same_def)

lemma same_updateJobProgress:
  "same w v \<Longrightarrow> rel_option same (updateJobProgress w k pd) (updateJobProgress v k pd)"
  using same_jobs [of w v]
  by (cases "jobs v k") (simp_all add: updateJobProgress_def same_write_record)

lemma same_try_record:
  "same w v \<Longrightarrow> rel_option same (try_record w k parsed) (try_record v k parsed)"
  by (auto simp: try_record_def same_updateJobProgress split: option.splits json.splits)

lemma process_line_unstructured:
  "\<not> structured l \<Longrightarrow> \<exists>m. process_line k w l = emit (ConsoleLog m) w"
  by (auto simp: structured_def process_line_def try_record_def)

lemma process_line_same:
  "same w v \<Longrightarrow> same (process_line k w l) (process_line k v l)"
  using same_try_record [of w v k "JSON_parse (trim l)"]
  by (auto simp: process_line_def same_console elim!: option.rel_cases)
    (auto simp: same_def outward_def)

lemma process_lines_same:
  "same w v \<Longrightarrow>
   same (foldl (process_line k) w ls) (foldl (process_line k) v (filter structured ls))"
proof (induction ls arbitrary: w v)
  case Nil
  then show ?case by simp
next
  case (Cons l ls)
  show ?case
  proof (cases "structured l")
    case True
    with Cons.IH [OF process_line_same [OF Cons.prems]] show ?thesis by simp
  next
    case False
    from process_line_unstructured [OF False]
    obtain m where "process_line k w l = emit (ConsoleLog m) w" by blast
    with False Cons.IH [OF same_console [OF Cons.prems]] show ?thesis by simp
  qed
qed

lemma jobs_process_lines:
  "jobs w k \<noteq> None \<Longrightarrow> jobs (foldl (process_line k) w ls) k \<noteq> None"
  using process_lines_moves [of w k _ k ls] by (auto simp: status_of_def)

lemma handleProcessOutput_Nil [simp]: "handleProcessOutput w k [] = w"
  by (simp add: handleProcessOutput_def split: option.splits)

lemma two_chunks:
  "handleProcessOutput (handleProcessOutput w k (a @ [CHR 0x0A])) k c
     = handleProcessOutput w k ((a @ [CHR 0x0A]) @ c)"
proof (cases "jobs w k")
  case None
  then show ?thesis by (simp add: handleProcessOutput_def)
next
  case (Some j)
  have l1: "output_lines (a @ [CHR 0x0A]) = output_lines a"
    using output_lines_append [of a "[]"] by simp
  have "jobs (foldl (process_line k) w (output_lines a)) k \<noteq> None"
    using Some by (simp add: jobs_process_lines)
  with Some show ?thesis
    by (auto simp: handleProcessOutput_def l1 output_lines_append)
qed

lemma concat_ends_nl:
  "cs \<noteq> [] \<Longrightarrow> \<forall>c \<in> set cs. endsWith c [CHR 0x0A] \<Longrightarrow> \<exists>a. concat cs = a @ [CHR 0x0A]"
proof (induction cs rule: rev_induct)
  case Nil
  then show ?case by simp
next
  case (snoc c cs)
  then obtain b where "c = b @ [CHR 0x0A]"
    by (auto simp: endsWith_def suffix_def)
  then have "concat (cs @ [c]) = (concat cs @ b) @ [CHR 0x0A]" by simp
  then show ?case by blast
qed

subsection \<open>An accepted start\<close>

lemma filter_spawn_logs:
  "filter is_spawn (effects (foldl (\<lambda>v l. emit (ConsoleLog l) v) w ls)) = filter is_spawn (effects w)"
  by (induction ls arbitrary: w) simp_all

lemma jobs_logs [simp]:
  "jobs (foldl (\<lambda>v l. emit (ConsoleLog l) v) w ls) = jobs w"
  by (induction ls arbitrary: w) simp_all

lemma launch_ok:
  assumes "existsSync e d \<or> mkdirSync e d" and "spawn e = Some c"
  shows "fst (launch e w opts j d) = Inr (job_id j) \<and>
         jobs (snd (launch e w opts j d))
           = (jobs w)(job_id j \<mapsto> j\<lparr>outputPath := Some (JString d), process := Some c, status := Running\<rparr>) \<and>
         filter is_spawn (effects (snd (launch e w opts j d)))
           = filter is_spawn (effects w) @
             [Spawn (pythonExecutable e) (build_args opts d) (projectRoot e) (process_PATH e)
                (process_VIRTUAL_ENV e)]"
  using assms
  by (auto simp: launch_def spawn_job_def Let_def filter_spawn_logs)

lemma start_ok:
  assumes "trim (o_inputPath opts) \<noteq> []" and "existsSync e (o_inputPath opts)"
    and "resolve_outputDir e opts = Some d" and "existsSync e d \<or> mkdirSync e d"
    and "spawn e = Some c"
  shows "fst (startProcessing e w opts) = Inr (generateJobId e) \<and>
         jobs (snd (startProcessing e w opts))
           = (jobs w)(generateJobId e \<mapsto>
               (initial_job (generateJobId e) (o_inputPath opts))
                 \<lparr>outputPath := Some (JString d), process := Some c, status := Running\<rparr>) \<and>
         filter is_spawn (effects (snd (startProcessing e w opts)))
           = filter is_spawn (effects w) @
             [Spawn (pythonExecutable e) (build_args opts d) (projectRoot e) (process_PATH e)
                (process_VIRTUAL_ENV e)]"
proof -
  let ?j = "initial_job (generateJobId e) (o_inputPath opts)"
  let ?w1 = "put_job (generateJobId e) ?j w"
  have ne: "o_inputPath opts \<noteq> []"
    using assms(1) by auto
  have sp: "startProcessing e w opts = launch e ?w1 opts ?j d"
    using assms ne by (simp add: startProcessing_def Let_def)
  have id: "job_id ?j = generateJobId e"
    by (simp add: initial_job_def)
  show ?thesis
    using launch_ok [OF assms(4) assms(5), of ?w1 opts ?j] by (simp add: sp id)
qed

lemma start_running_jobs:
  assumes "trim (o_inputPath opts) \<noteq> []" and "existsSync e (o_inputPath opts)"
    and "resolve_outputDir e opts = Some d" and "existsSync e d \<or> mkdirSync e d"
    and "spawn e = Some c"
  shows "running_jobs (snd (startProcessing e w opts)) = insert (generateJobId e) (running_jobs w)"
  using start_ok [OF assms, of w] by (auto simp: running_jobs_def status_of_def)

lemma batch_request:
  "trim (o_inputPath batch_opts) \<noteq> [] \<and> existsSync posix_env (o_inputPath batch_opts) \<and>
   resolve_outputDir posix_env batch_opts = Some ''/photos'' \<and>
   (existsSync posix_env ''/photos'' \<or> mkdirSync posix_env ''/photos'') \<and>
   spawn posix_env = Some 1 \<and> generateJobId posix_env = ''job_1'' \<and>
   build_args batch_opts ''/photos''
     = [''photo_editor.py'', ''batch'', ''/photos'', ''--output-dir'', ''/photos'', ''--json-output''] \<and>
   pythonExecutable posix_env = ''python3'' \<and> projectRoot posix_env = ''/app'' \<and>
   process_PATH posix_env = Some ''/usr/bin'' \<and> process_VIRTUAL_ENV posix_env = None"
  by code_simp

lemma running_jobs_empty: "running_jobs empty_world = {}"
  by (simp add: running_jobs_def status_of_def empty_world_def)

lemma file_request:
  "f \<in> set photos \<Longrightarrow>
   trim (o_inputPath (file_opts f)) \<noteq> [] \<and> existsSync (env_for k c) (o_inputPath (file_opts f)) \<and>
   resolve_outputDir (env_for k c) (file_opts f) = Some ''/photos'' \<and>
   (existsSync (env_for k c) ''/photos'' \<or> mkdirSync (env_for k c) ''/photos'') \<and>
   spawn (env_for k c) = Some c \<and> generateJobId (env_for k c) = k"
  unfolding photos_def
  by (auto simp: file_opts_def env_for_def posix_env_def photos_def resolve_outputDir_def
      outputDir_of_input_def posix_dirname_def trim_def is_ws1_def is_ws2_def is_ws3_def)

lemma start_file_running:
  "f \<in> set photos \<Longrightarrow>
   running_jobs (snd (startProcessing (env_for k c) w (file_opts f))) = insert k (running_jobs w)"
  using file_request [of f k c] start_running_jobs [of "file_opts f" "env_for k c" "''/photos''" c w]
  by simp

lemma ten_photos:
  "readdirSync posix_env ''/photos'' = Some photos \<and> length (filter is_image_file photos) = 10"
  by code_simp

section \<open>Cancelling without a live process\<close>

text \<open>
  Claim C9. For every job id whose job does not exist or has no process bound,
  \<open>cancelJob\<close> returns false and the whole state, the job's status included, is as before.
\<close>

theorem cancel_without_process:
  "jobs w jobId = None \<or> (\<exists>j. jobs w jobId = Some j \<and> process j = None) \<Longrightarrow>
   cancelJob e w jobId = (False, w)"
  by (auto simp: cancelJob_def)

text \<open>
  Two instances: an id the registry does not know, and the job of \<open>running_world\<close> after
  its process has closed.
\<close>

theorem cancel_without_process_witness:
  "cancelJob posix_env empty_world ''job_1'' = (False, empty_world) \<and>
   cancelJob posix_env (step running_world (posix_env, Close ''job_1'' (Some 1))) ''job_1''
     = (False, step running_world (posix_env, Close ''job_1'' (Some 1)))"
proof -
  have a: "jobs empty_world ''job_1'' = None"
    by (simp add: empty_world_def)
  have b: "\<exists>j. jobs (step running_world (posix_env, Close ''job_1'' (Some 1))) ''job_1'' = Some j
             \<and> process j = None"
    by (simp add: running_world_def onClose_def Let_def)
  show ?thesis
    using cancel_without_process [of empty_world "''job_1''" posix_env]
      cancel_without_process
        [of "step running_world (posix_env, Close ''job_1'' (Some 1))" "''job_1''" posix_env]
      a b by blast
qed

section \<open>A blank input path\<close>

lemma ws2_not_ws1: "is_ws2 a b \<Longrightarrow> \<not> is_ws1 a"
  by (auto simp: is_ws1_def is_ws2_def)

lemma ws3_not_ws1: "is_ws3 a b c \<Longrightarrow> \<not> is_ws1 a"
  by (auto simp: is_ws1_def is_ws3_def)

lemma ws3_not_ws2: "is_ws3 a b c \<Longrightarrow> \<not> is_ws2 a b"
  by (auto simp: is_ws2_def is_ws3_def)

lemma trimStart_ws1: "is_ws1 a \<Longrightarrow> trimStart (a # r) = trimStart r"
  by (cases r rule: trimStart.cases) simp_all

lemma trimStart_ws2: "is_ws2 a b \<Longrightarrow> trimStart (a # b # r) = trimStart r"
  by (cases r) (simp_all add: ws2_not_ws1)

lemma trimStart_ws3: "is_ws3 a b c \<Longrightarrow> trimStart (a # b # c # r) = trimStart r"
  by (simp add: ws3_not_ws1 ws3_not_ws2)

lemma trimStart_ws_seq: "is_ws_seq u \<Longrightarrow> trimStart (u @ r) = trimStart r"
  by (auto simp: is_ws_seq_def trimStart_ws1 trimStart_ws2 trimStart_ws3
        simp del: trimStart.simps split: list.splits)

lemma trimStart_ws_seqs: "list_all is_ws_seq us \<Longrightarrow> trimStart (concat us @ r) = trimStart r"
  by (induction us) (simp_all add: trimStart_ws_seq)

lemma trim_whitespace_only: "whitespace_only s \<Longrightarrow> trim s = []"
  using trimStart_ws_seqs [of _ "[]"] by (auto simp: whitespace_only_def trim_def)

text \<open>
  Claim C10. For every call of \<open>startProcessing\<close> whose input path is empty or made of
  white space only, the call throws its error with the state as it was: no job is put
  into the registry and nothing is spawned.
\<close>

theorem blank_input_path_rejected:
  "whitespace_only (o_inputPath opts) \<Longrightarrow>
   startProcessing e w opts = (Inl (Error ''Input path is required and cannot be empty''), w)"
  by (simp add: startProcessing_def trim_whitespace_only)

text \<open>A space and a tab, and the empty path.\<close>

theorem blank_input_path_rejected_witness:
  "whitespace_only ('' '' @ [CHR 0x09]) \<and>
   startProcessing posix_env running_world
     \<lparr>o_inputPath = '' '' @ [CHR 0x09], o_outputDir = None, o_instructions = None, o_mode = Single\<rparr>
   = (Inl (Error ''Input path is required and cannot be empty''), running_world) \<and>
   whitespace_only [] \<and>
   startProcessing posix_env running_world
     \<lparr>o_inputPath = [], o_outputDir = None, o_instructions = None, o_mode = Batch\<rparr>
   = (Inl (Error ''Input path is required and cannot be empty''), running_world)"
proof -
  have a: "whitespace_only ('' '' @ [CHR 0x09])"
    unfolding whitespace_only_def
    by (rule exI [of _ "['' '', [CHR 0x09]]"]) (simp add: is_ws_seq_def is_ws1_def)
  have b: "whitespace_only []"
    unfolding whitespace_only_def by (rule exI [of _ "[]"]) simp
  show ?thesis
    using a b
      blank_input_path_rejected
        [of "\<lparr>o_inputPath = '' '' @ [CHR 0x09], o_outputDir = None, o_instructions = None, o_mode = Single\<rparr>"
            posix_env running_world]
      blank_input_path_rejected
        [of "\<lparr>o_inputPath = [], o_outputDir = None, o_instructions = None, o_mode = Batch\<rparr>"
            posix_env running_world]
    by simp
qed

section \<open>A success event followed by the exit code\<close>

lemma throwing_line:
  \<open>output_lines ''{"stage":{"toString":1},"success":true}''
     = [''{"stage":{"toString":1},"success":true}''] \<and>
   trim ''{"stage":{"toString":1},"success":true}'' = ''{"stage":{"toString":1},"success":true}'' \<and>
   startsWith ''{"stage":{"toString":1},"success":true}'' ''{'' \<and>
   endsWith ''{"stage":{"toString":1},"success":true}'' ''}'' \<and>
   JSON_parse ''{"stage":{"toString":1},"success":true}''
     = Some (JObject [(''stage'', JObject [(''toString'', JNumber 1 0)]), (''success'', JBool True)]) \<and>
   stage_throws [(''stage'', JObject [(''toString'', JNumber 1 0)]), (''success'', JBool True)] \<and>
   truthy_opt (get_prop [(''stage'', JObject [(''toString'', JNumber 1 0)]), (''success'', JBool True)]
     ''success'')\<close>
  by code_simp

lemma stdout_throwing_record:
  assumes "jobs w k = Some j" and "stage_throws pd" and "output_lines l = [l]" and "trim l = l"
    and "startsWith l ''{''" and "endsWith l ''}''" and "JSON_parse l = Some (JObject pd)"
  shows "handleProcessOutput w k l = emit (ConsoleLog (''Job '' @ k @ '' non-JSON output: '' @ l)) w"
  using assms
  by (simp add: handleProcessOutput_def process_line_def try_record_def updateJobProgress_None)

text \<open>
  Claim C1, as the code has it. For every job, an event whose \<open>success\<close> is truthy and
  that \<open>updateJobProgress\<close> applies sets the status to completed; the exit notification
  that follows sets the status from the exit code alone, completed for code 0 and failed
  for every other code or a signal, so a nonzero exit code does replace the completion.
  The one event that is not applied is a record with a falsy \<open>agentStatus\<close> whose truthy
  \<open>stage\<close> has no property key (an object with an own \<open>toString\<close> property, or an array
  that holds one): there \<open>updateJobProgress\<close> throws before it writes anything.
\<close>

theorem success_event_then_exit:
  assumes "jobs w jobId = Some j" and "truthy_opt (get_prop pd ''success'')"
  shows "(stage_throws pd \<longrightarrow> updateJobProgress w jobId pd = None) \<and>
         (\<not> stage_throws pd \<longrightarrow>
            (\<exists>w1. updateJobProgress w jobId pd = Some w1 \<and>
                  status_of w1 jobId = Some Completed \<and>
                  status_of (onClose e w1 jobId code) jobId =
                    Some (if code = Some 0 then Completed else Failed)))"
  using assms
  by (simp add: updateJobProgress_Some updateJobProgress_None status_of_write_record
      status_of_onClose)

text \<open>
  The record \<open>{"success":true}\<close> followed by exit code 1, and the record
  \<open>{"stage":{"toString":1},"success":true}\<close>, which throws and leaves the job running.
\<close>

theorem success_event_then_exit_witness:
  \<open>(\<exists>w1. updateJobProgress running_world ''job_1'' [(''success'', JBool True)] = Some w1 \<and>
         status_of w1 ''job_1'' = Some Completed \<and>
         status_of (onClose posix_env w1 ''job_1'' (Some 1)) ''job_1'' = Some Failed) \<and>
   updateJobProgress running_world ''job_1''
     [(''stage'', JObject [(''toString'', JNumber 1 0)]), (''success'', JBool True)] = None \<and>
   status_of (handleProcessOutput running_world ''job_1'' ''{"stage":{"toString":1},"success":true}'')
     ''job_1'' = Some Running\<close>
proof -
  have t: "stage_throws [(''stage'', JObject [(''toString'', JNumber 1 0)]), (''success'', JBool True)]"
    and ts: "truthy_opt (get_prop [(''stage'', JObject [(''toString'', JNumber 1 0)]),
               (''success'', JBool True)] ''success'')"
    using throwing_line by simp_all
  have r: "status_of running_world ''job_1'' = Some Running"
    by (simp add: status_of_def running_world_def running_job_def)
  have l: \<open>status_of (handleProcessOutput running_world ''job_1''
             ''{"stage":{"toString":1},"success":true}'') ''job_1'' = Some Running\<close>
    using stdout_throwing_record [OF jobs_running_world t] throwing_line r by simp
  show ?thesis
    using success_event_then_exit [OF jobs_running_world truthy_success_true, of posix_env "Some 1"]
      success_event_then_exit [OF jobs_running_world ts, of posix_env "Some 1"]
      no_throw_success_true t l
    by simp
qed

text \<open>
  The claim as the specification states it fails: the worker prints \<open>{"success":true}\<close>
  and then exits with code 1.
\<close>

theorem exit_code_downgrades_success:
  \<open>status_of (run running_world [(posix_env, Stdout ''job_1'' ''{"success":true}'')]) ''job_1''
     = Some Completed \<and>
   status_of (run running_world
       [(posix_env, Stdout ''job_1'' ''{"success":true}''), (posix_env, Close ''job_1'' (Some 1))])
     ''job_1'' \<noteq> Some Completed\<close>
  by (simp add: run_def stdout_success_true [OF jobs_running_world] status_of_write_record
      status_of_onClose truthy_success_true)

section \<open>Cancelling a running job\<close>

text \<open>
  Claim C3, as the code has it. For every job with a process bound, when \<open>kill\<close> does not
  throw, \<open>cancelJob\<close> returns true, sends \<open>SIGTERM\<close> to the process and sets the status to
  failed with the message \<open>Processing cancelled by user\<close>; the process stays bound and
  nothing marks the job as cancelled, so an event with a truthy \<open>success\<close> that arrives
  afterwards and that \<open>updateJobProgress\<close> applies sets the status to completed (a record
  on which the stage lookup throws is not applied), and the exit notification sets the
  status from the exit code, completed for code 0 and failed otherwise.
\<close>

theorem cancel_running_job:
  assumes "jobs w jobId = Some j" and "process j = Some p" and "\<not> kill_throws e"
  shows "fst (cancelJob e w jobId) = True \<and>
         effects (snd (cancelJob e w jobId)) = effects w @ [Kill p ''SIGTERM''] \<and>
         jobs (snd (cancelJob e w jobId)) jobId =
           Some (j\<lparr>status := Failed,
                   progress := (progress j)\<lparr>message := JString ''Processing cancelled by user''\<rparr>\<rparr>) \<and>
         (stage_throws pd \<longrightarrow> updateJobProgress (snd (cancelJob e w jobId)) jobId pd = None) \<and>
         (truthy_opt (get_prop pd ''success'') \<and> \<not> stage_throws pd \<longrightarrow>
            (\<exists>w1. updateJobProgress (snd (cancelJob e w jobId)) jobId pd = Some w1 \<and>
                  status_of w1 jobId = Some Completed)) \<and>
         status_of (onClose e' (snd (cancelJob e w jobId)) jobId code) jobId =
           Some (if code = Some 0 then Completed else Failed)"
  using assms
  by (simp add: cancelJob_def updateJobProgress_Some updateJobProgress_None status_of_write_record
      status_of_onClose)

theorem cancel_running_job_witness:
  "fst (cancelJob posix_env running_world ''job_1'') = True \<and>
   effects (snd (cancelJob posix_env running_world ''job_1'')) = [Kill 1 ''SIGTERM''] \<and>
   status_of (snd (cancelJob posix_env running_world ''job_1'')) ''job_1'' = Some Failed \<and>
   (\<exists>w1. updateJobProgress (snd (cancelJob posix_env running_world ''job_1'')) ''job_1''
            [(''success'', JBool True)] = Some w1 \<and> status_of w1 ''job_1'' = Some Completed) \<and>
   updateJobProgress (snd (cancelJob posix_env running_world ''job_1'')) ''job_1''
     [(''stage'', JObject [(''toString'', JNumber 1 0)]), (''success'', JBool True)] = None \<and>
   status_of (onClose posix_env (snd (cancelJob posix_env running_world ''job_1'')) ''job_1'' (Some 0))
      ''job_1'' = Some Completed"
proof -
  have t: "stage_throws [(''stage'', JObject [(''toString'', JNumber 1 0)]), (''success'', JBool True)]"
    using throwing_line by simp
  show ?thesis
    using cancel_running_job [OF jobs_running_world process_running_job kill_posix_env,
        of "[(''success'', JBool True)]" posix_env "Some 0"]
      cancel_running_job [OF jobs_running_world process_running_job kill_posix_env,
        of "[(''stage'', JObject [(''toString'', JNumber 1 0)]), (''success'', JBool True)]"
           posix_env "Some 0"]
      truthy_success_true no_throw_success_true t
    by (simp add: status_of_def running_world_def)
qed

text \<open>
  The claim as the specification states it fails: after the cancel, a late
  \<open>{"success":true}\<close> or a late exit code 0 makes the job completed.
\<close>

theorem cancelled_job_completed_later:
  \<open>status_of (run running_world [(posix_env, Cancel ''job_1'')]) ''job_1'' = Some Failed \<and>
   status_of (run running_world
      [(posix_env, Cancel ''job_1''), (posix_env, Stdout ''job_1'' ''{"success":true}'')]) ''job_1''
     = Some Completed \<and>
   status_of (run running_world
      [(posix_env, Cancel ''job_1''), (posix_env, Close ''job_1'' (Some 0))]) ''job_1''
     = Some Completed\<close>
proof -
  obtain j' where a: "jobs (snd (cancelJob posix_env running_world ''job_1'')) ''job_1'' = Some j'"
    by (simp add: cancelJob_def jobs_running_world process_running_job kill_posix_env)
  show ?thesis
    using a jobs_running_world process_running_job kill_posix_env
    by (simp add: run_def stdout_success_true [OF a] status_of_write_record status_of_onClose
        status_of_cancelJob truthy_success_true)
qed

section \<open>A reported output path without success\<close>

text \<open>
  Claim C6, as the code has it. For every job, an event with a falsy or absent \<open>success\<close>
  and a non-empty \<open>output_path\<close> that \<open>updateJobProgress\<close> applies (a record on which the
  stage lookup throws is not applied and changes nothing) leaves the status as it is and
  sets \<open>outputPath\<close> to the reported path. When the process then exits with code 0 the job
  is completed, and its \<open>outputPath\<close> is the reported path, or the first image file found
  in it when the reported path is a directory that holds one. When the process exits with
  another code or by a signal the job is failed and \<open>outputPath\<close> is the reported path.
\<close>

theorem reported_output_then_exit:
  assumes "jobs w jobId = Some j"
    and "get_prop pd ''output_path'' = Some (JString p)" and "p \<noteq> []"
    and "\<not> truthy_opt (get_prop pd ''success'')"
  shows "(stage_throws pd \<longrightarrow> updateJobProgress w jobId pd = None) \<and>
         (\<not> stage_throws pd \<longrightarrow>
            (\<exists>w1 j1 j2.
               updateJobProgress w jobId pd = Some w1 \<and>
               jobs w1 jobId = Some j1 \<and>
               status j1 = status j \<and> outputPath j1 = Some (JString p) \<and>
               jobs (onClose e w1 jobId code) jobId = Some j2 \<and>
               status j2 = (if code = Some 0 then Completed else Failed) \<and>
               outputPath j2 =
                 Some (if code = Some 0 then
                         (case readdirSync e p of
                            None \<Rightarrow> JString p
                          | Some files \<Rightarrow>
                              (case filter is_image_file files of
                                 [] \<Rightarrow> JString p
                               | f # fs \<Rightarrow> JString (join e [p, f])))
                       else JString p)))"
proof -
  let ?j1 = "update_job pd j"
  have s1: "status ?j1 = status j"
    using assms(4) by (simp add: status_update_job)
  have o1: "outputPath ?j1 = Some (JString p)"
    using assms(2,3) by (simp add: update_job_def if_truthy_opt_def)
  have c: "\<exists>j2. jobs (onClose e (write_record w jobId j pd) jobId code) jobId = Some j2 \<and>
               status j2 = (if code = Some 0 then Completed else Failed) \<and>
               outputPath j2 =
                 Some (if code = Some 0 then
                         (case readdirSync e p of
                            None \<Rightarrow> JString p
                          | Some files \<Rightarrow>
                              (case filter is_image_file files of
                                 [] \<Rightarrow> JString p
                               | f # fs \<Rightarrow> JString (join e [p, f])))
                       else JString p)"
    using o1 assms(3)
    by (auto simp: onClose_def Let_def if_truthy_opt_def find_output_def
        split: option.splits list.splits)
  show ?thesis
    using assms(1) s1 o1 c
    by (simp add: updateJobProgress_Some updateJobProgress_None)
qed

lemma quality_fail_line:
  \<open>output_lines ''{"success":false,"output_path":"/out/a.jpg"}''
     = [''{"success":false,"output_path":"/out/a.jpg"}''] \<and>
   trim ''{"success":false,"output_path":"/out/a.jpg"}''
     = ''{"success":false,"output_path":"/out/a.jpg"}'' \<and>
   startsWith ''{"success":false,"output_path":"/out/a.jpg"}'' ''{'' \<and>
   endsWith ''{"success":false,"output_path":"/out/a.jpg"}'' ''}'' \<and>
   JSON_parse ''{"success":false,"output_path":"/out/a.jpg"}''
     = Some (JObject [(''success'', JBool False), (''output_path'', JString ''/out/a.jpg'')]) \<and>
   \<not> stage_throws [(''success'', JBool False), (''output_path'', JString ''/out/a.jpg'')]\<close>
  by code_simp

lemma throwing_output_record:
  "get_prop [(''stage'', JArray [JObject [(''toString'', JNumber 1 0)]]),
             (''output_path'', JString ''/out/a.jpg'')] ''output_path'' = Some (JString ''/out/a.jpg'') \<and>
   \<not> truthy_opt (get_prop [(''stage'', JArray [JObject [(''toString'', JNumber 1 0)]]),
             (''output_path'', JString ''/out/a.jpg'')] ''success'') \<and>
   stage_throws [(''stage'', JArray [JObject [(''toString'', JNumber 1 0)]]),
             (''output_path'', JString ''/out/a.jpg'')]"
  by code_simp

text \<open>
  The record \<open>{"success":false,"output_path":"/out/a.jpg"}\<close> followed by exit code 0, and
  the record \<open>{"stage":[{"toString":1}],"output_path":"/out/a.jpg"}\<close>, which throws.
\<close>

theorem reported_output_then_exit_witness:
  "(\<exists>w1 j1 j2.
      updateJobProgress running_world ''job_1''
        [(''success'', JBool False), (''output_path'', JString ''/out/a.jpg'')] = Some w1 \<and>
      jobs w1 ''job_1'' = Some j1 \<and>
      status j1 = Running \<and> outputPath j1 = Some (JString ''/out/a.jpg'') \<and>
      jobs (onClose posix_env w1 ''job_1'' (Some 0)) ''job_1'' = Some j2 \<and>
      status j2 = Completed \<and> outputPath j2 = Some (JString ''/out/a.jpg'')) \<and>
   updateJobProgress running_world ''job_1''
     [(''stage'', JArray [JObject [(''toString'', JNumber 1 0)]]),
      (''output_path'', JString ''/out/a.jpg'')] = None"
proof -
  have a: "get_prop [(''success'', JBool False), (''output_path'', JString ''/out/a.jpg'')] ''output_path''
             = Some (JString ''/out/a.jpg'')"
    by (simp add: get_prop_def)
  have b: "''/out/a.jpg'' \<noteq> []" by simp
  have c: "\<not> truthy_opt (get_prop [(''success'', JBool False), (''output_path'', JString ''/out/a.jpg'')] ''success'')"
    by (simp add: get_prop_def truthy_opt_def)
  have n: "\<not> stage_throws [(''success'', JBool False), (''output_path'', JString ''/out/a.jpg'')]"
    using quality_fail_line by simp
  have d: "status running_job = Running" by (simp add: running_job_def)
  have r: "readdirSync posix_env ''/out/a.jpg'' = None" by (simp add: posix_env_def)
  have a': "get_prop [(''stage'', JArray [JObject [(''toString'', JNumber 1 0)]]),
             (''output_path'', JString ''/out/a.jpg'')] ''output_path'' = Some (JString ''/out/a.jpg'')"
    and c': "\<not> truthy_opt (get_prop [(''stage'', JArray [JObject [(''toString'', JNumber 1 0)]]),
             (''output_path'', JString ''/out/a.jpg'')] ''success'')"
    and t: "stage_throws [(''stage'', JArray [JObject [(''toString'', JNumber 1 0)]]),
             (''output_path'', JString ''/out/a.jpg'')]"
    using throwing_output_record by simp_all
  show ?thesis
    using reported_output_then_exit [OF jobs_running_world a b c, of posix_env "Some 0"]
      reported_output_then_exit [OF jobs_running_world a' b c', of posix_env "Some 0"]
      n t d r
    by simp
qed

text \<open>
  The claim as the specification states it fails: the worker reports
  \<open>{"success":false,"output_path":"/out/a.jpg"}\<close> and exits with code 1.
\<close>

theorem quality_fail_with_exit_code_fails:
  \<open>status_of (run running_world
      [(posix_env, Stdout ''job_1'' ''{"success":false,"output_path":"/out/a.jpg"}''),
       (posix_env, Close ''job_1'' (Some 1))]) ''job_1'' = Some Failed\<close>
proof -
  have n: "\<not> stage_throws [(''success'', JBool False), (''output_path'', JString ''/out/a.jpg'')]"
    using quality_fail_line by simp
  have h: \<open>handleProcessOutput running_world ''job_1'' ''{"success":false,"output_path":"/out/a.jpg"}''
      = write_record running_world ''job_1'' running_job
          [(''success'', JBool False), (''output_path'', JString ''/out/a.jpg'')]\<close>
    using stdout_one_record [OF jobs_running_world n] quality_fail_line by simp
  show ?thesis
    by (simp add: run_def h status_of_onClose)
qed

section \<open>Stage events\<close>

lemma analysis_lines:
  \<open>output_lines ''{"stage":"analysis"}'' = [''{"stage":"analysis"}''] \<and>
   trim ''{"stage":"analysis"}'' = ''{"stage":"analysis"}'' \<and>
   startsWith ''{"stage":"analysis"}'' ''{'' \<and>
   endsWith ''{"stage":"analysis"}'' ''}'' \<and>
   JSON_parse ''{"stage":"analysis"}'' = Some (JObject [(''stage'', JString ''analysis'')]) \<and>
   output_lines ''{"stage":"analysis_complete"}'' = [''{"stage":"analysis_complete"}''] \<and>
   trim ''{"stage":"analysis_complete"}'' = ''{"stage":"analysis_complete"}'' \<and>
   startsWith ''{"stage":"analysis_complete"}'' ''{'' \<and>
   endsWith ''{"stage":"analysis_complete"}'' ''}'' \<and>
   JSON_parse ''{"stage":"analysis_complete"}''
     = Some (JObject [(''stage'', JString ''analysis_complete'')])\<close>
  by code_simp

lemma agentStatus_stage_event:
  "truthy s \<Longrightarrow> lookup_agent s = Some a \<Longrightarrow>
   get_prop (agentStatus (progress (update_job [(''stage'', s)] j))) a = Some (JString (stage_status s))"
  by (simp add: update_job_def update_progress_def update_agentStatus_def update_stage_def
      get_prop_def [of "[(''stage'', s)]"])

lemma stage_policy:
  "map_of stageAgentMap s = Some a \<Longrightarrow>
   get_prop (update_stage (Some (JString s)) ags) a =
     Some (JString (if str_includes s ''complete'' then ''completed''
                    else if str_includes s ''failed'' \<or> str_includes s ''error'' then ''error''
                    else ''running''))"
  by (auto simp: stageAgentMap_def update_stage_def lookup_agent_def stage_status_def
      split: if_splits)

text \<open>
  Claim C7. For every job, the lines \<open>{"stage":"analysis"}\<close> and then
  \<open>{"stage":"analysis_complete"}\<close> leave \<open>agentStatus.analysis\<close> at \<open>running\<close> and then at
  \<open>completed\<close>; and for every stage name of the lookup table the status written for its
  agent is \<open>completed\<close> when the name contains \<open>complete\<close>, else \<open>error\<close> when it contains
  \<open>failed\<close> or \<open>error\<close>, else \<open>running\<close>.
\<close>

theorem analysis_then_analysis_complete:
  assumes "jobs w jobId = Some j"
  shows \<open>(\<exists>j1 j2.
            jobs (handleProcessOutput w jobId ''{"stage":"analysis"}'') jobId = Some j1 \<and>
            get_prop (agentStatus (progress j1)) ''analysis'' = Some (JString ''running'') \<and>
            jobs (handleProcessOutput (handleProcessOutput w jobId ''{"stage":"analysis"}'') jobId
                    ''{"stage":"analysis_complete"}'') jobId = Some j2 \<and>
            get_prop (agentStatus (progress j2)) ''analysis'' = Some (JString ''completed'')) \<and>
         (\<forall>s a ags. map_of stageAgentMap s = Some a \<longrightarrow>
            get_prop (update_stage (Some (JString s)) ags) a =
              Some (JString (if str_includes s ''complete'' then ''completed''
                             else if str_includes s ''failed'' \<or> str_includes s ''error'' then ''error''
                             else ''running'')))\<close>
proof -
  let ?j1 = "update_job [(''stage'', JString ''analysis'')] j"
  let ?w1 = "write_record w jobId j [(''stage'', JString ''analysis'')]"
  have n1: "\<not> stage_throws [(''stage'', JString ''analysis'')]"
    and n2: "\<not> stage_throws [(''stage'', JString ''analysis_complete'')]"
    by (simp_all add: stage_throws_def get_prop_def)
  have l1: "lookup_agent (JString ''analysis'') = Some ''analysis''"
    by (simp add: lookup_agent_def stageAgentMap_def)
  have l2: "lookup_agent (JString ''analysis_complete'') = Some ''analysis''"
    by (simp add: lookup_agent_def stageAgentMap_def)
  have s1: "stage_status (JString ''analysis'') = ''running''"
    by (simp add: stage_status_def)
  have s2: "stage_status (JString ''analysis_complete'') = ''completed''"
    by (simp add: stage_status_def)
  have h1: \<open>handleProcessOutput w jobId ''{"stage":"analysis"}'' = ?w1\<close>
    using stdout_one_record [OF assms n1] analysis_lines by simp
  have b: "jobs ?w1 jobId = Some ?j1"
    by simp
  have h2: \<open>handleProcessOutput ?w1 jobId ''{"stage":"analysis_complete"}''
              = write_record ?w1 jobId ?j1 [(''stage'', JString ''analysis_complete'')]\<close>
    using stdout_one_record [OF b n2] analysis_lines by simp
  have t1: "truthy (JString ''analysis'')" and t2: "truthy (JString ''analysis_complete'')"
    by simp_all
  have p1: "get_prop (agentStatus (progress (update_job [(''stage'', JString ''analysis'')] j))) ''analysis''
              = Some (JString ''running'')"
    using agentStatus_stage_event [OF t1 l1] by (simp add: s1)
  have p2: "get_prop (agentStatus (progress (update_job [(''stage'', JString ''analysis_complete'')]
                (update_job [(''stage'', JString ''analysis'')] j)))) ''analysis''
              = Some (JString ''completed'')"
    using agentStatus_stage_event [OF t2 l2] by (simp add: s2)
  have scenario: \<open>\<exists>j1 j2.
            jobs (handleProcessOutput w jobId ''{"stage":"analysis"}'') jobId = Some j1 \<and>
            get_prop (agentStatus (progress j1)) ''analysis'' = Some (JString ''running'') \<and>
            jobs (handleProcessOutput (handleProcessOutput w jobId ''{"stage":"analysis"}'') jobId
                    ''{"stage":"analysis_complete"}'') jobId = Some j2 \<and>
            get_prop (agentStatus (progress j2)) ''analysis'' = Some (JString ''completed'')\<close>
    using p1 p2 by (simp add: h1 h2)
  show ?thesis
    using scenario stage_policy by blast
qed

theorem analysis_then_analysis_complete_witness:
  \<open>\<exists>j1 j2.
     jobs (handleProcessOutput running_world ''job_1'' ''{"stage":"analysis"}'') ''job_1'' = Some j1 \<and>
     get_prop (agentStatus (progress j1)) ''analysis'' = Some (JString ''running'') \<and>
     jobs (handleProcessOutput (handleProcessOutput running_world ''job_1'' ''{"stage":"analysis"}'')
             ''job_1'' ''{"stage":"analysis_complete"}'') ''job_1'' = Some j2 \<and>
     get_prop (agentStatus (progress j2)) ''analysis'' = Some (JString ''completed'')\<close>
  using analysis_then_analysis_complete [OF jobs_running_world] by blast

section \<open>The order of the statuses\<close>

text \<open>
  Claim C2, as the code has it. For every job and every sequence of output chunks, stderr
  chunks, exit notifications and cancel requests, the status afterwards is the status
  before or one of completed and failed; so a job that is completed or failed never
  returns to pending or running. It can still move between completed and failed, and the
  code has no cancelled status.
\<close>

theorem status_stays_terminal:
  assumes "status_of w jobId = Some s"
  shows "\<exists>s'. status_of (run w acts) jobId = Some s' \<and>
              (s' = s \<or> s' = Completed \<or> s' = Failed) \<and>
              (s = Completed \<or> s = Failed \<longrightarrow> s' = Completed \<or> s' = Failed)"
  using run_moves [OF assms, of acts] by (auto simp: moves_def terminal_def)

text \<open>The job of \<open>running_world\<close> after exit code 0, then a late stderr chunk and a second close.\<close>

theorem status_stays_terminal_witness:
  "status_of (run running_world [(posix_env, Close ''job_1'' (Some 0))]) ''job_1'' = Some Completed \<and>
   (\<exists>s'. status_of (run (run running_world [(posix_env, Close ''job_1'' (Some 0))])
              [(posix_env, Stderr ''job_1'' ''late''), (posix_env, Close ''job_1'' None)]) ''job_1''
            = Some s' \<and> (s' = Completed \<or> s' = Failed))"
proof -
  have a: "status_of (run running_world [(posix_env, Close ''job_1'' (Some 0))]) ''job_1'' = Some Completed"
    using jobs_running_world by (simp add: run_def status_of_onClose)
  show ?thesis
    using a status_stays_terminal [OF a,
        of "[(posix_env, Stderr ''job_1'' ''late''), (posix_env, Close ''job_1'' None)]"]
    by auto
qed

text \<open>
  The claim as the specification states it fails: a completed job is failed by a cancel,
  completed again by a second success event and failed again by the exit notification.
\<close>

theorem terminal_status_changes:
  \<open>status_of (run running_world
      [(posix_env, Stdout ''job_1'' ''{"success":true}'')]) ''job_1'' = Some Completed \<and>
   status_of (run running_world
      [(posix_env, Stdout ''job_1'' ''{"success":true}''), (posix_env, Cancel ''job_1'')]) ''job_1''
     = Some Failed \<and>
   status_of (run running_world
      [(posix_env, Stdout ''job_1'' ''{"success":true}''), (posix_env, Cancel ''job_1''),
       (posix_env, Stdout ''job_1'' ''{"success":true}'')]) ''job_1'' = Some Completed \<and>
   status_of (run running_world
      [(posix_env, Stdout ''job_1'' ''{"success":true}''), (posix_env, Cancel ''job_1''),
       (posix_env, Stdout ''job_1'' ''{"success":true}''), (posix_env, Close ''job_1'' None)]) ''job_1''
     = Some Failed\<close>
proof -
  let ?w1 = "write_record running_world ''job_1'' running_job [(''success'', JBool True)]"
  let ?w2 = "snd (cancelJob posix_env ?w1 ''job_1'')"
  have j1: "jobs ?w1 ''job_1'' = Some (update_job [(''success'', JBool True)] running_job)"
    by simp
  have p1: "process (update_job [(''success'', JBool True)] running_job) = Some 1"
    by (simp add: process_running_job)
  obtain j2 where j2: "jobs ?w2 ''job_1'' = Some j2"
    using j1 p1 by (simp add: cancelJob_def kill_posix_env)
  let ?w3 = "write_record ?w2 ''job_1'' j2 [(''success'', JBool True)]"
  have s1: "status_of ?w1 ''job_1'' = Some Completed"
    by (simp add: status_of_write_record truthy_success_true)
  have s2: "status_of ?w2 ''job_1'' = Some Failed"
    using j1 p1 by (simp add: status_of_cancelJob kill_posix_env)
  have s3: "status_of ?w3 ''job_1'' = Some Completed"
    by (simp add: status_of_write_record truthy_success_true)
  have s4: "status_of (onClose posix_env ?w3 ''job_1'' None) ''job_1'' = Some Failed"
    by (simp add: status_of_onClose)
  show ?thesis
    using s1 s2 s3 s4
    by (simp add: run_def stdout_success_true [OF jobs_running_world] stdout_success_true [OF j2])
qed

section \<open>Lines that do not parse\<close>

text \<open>
  Claim C8. For every sequence of output lines, the registry and everything sent to the
  renderer after the chunk are what the structured lines alone give: a line that is not a
  structured record changes no job and fails none. Handling such a line adds one console
  line and nothing else.
\<close>

theorem unparseable_lines_only_logged:
  assumes "\<forall>l \<in> set ls. CHR 0x0A \<notin> set l"
  shows "jobs (handleProcessOutput w jobId (join_nl ls))
           = jobs (handleProcessOutput w jobId (join_nl (filter structured ls))) \<and>
         outward (handleProcessOutput w jobId (join_nl ls))
           = outward (handleProcessOutput w jobId (join_nl (filter structured ls))) \<and>
         (\<forall>v l. \<not> structured l \<longrightarrow> (\<exists>m. process_line jobId v l = emit (ConsoleLog m) v))"
proof -
  have a: "output_lines (join_nl ls) = filter (\<lambda>l. trim l \<noteq> []) ls"
    using assms by (rule output_lines_join)
  have "\<forall>l \<in> set (filter structured ls). CHR 0x0A \<notin> set l"
    using assms by simp
  then have c: "output_lines (join_nl (filter structured ls))
               = filter (\<lambda>l. trim l \<noteq> []) (filter structured ls)"
    by (rule output_lines_join)
  have "filter (\<lambda>l. trim l \<noteq> []) (filter structured ls)
          = filter structured (filter (\<lambda>l. trim l \<noteq> []) ls)"
    by (simp add: conj_commute)
  with a c have b: "output_lines (join_nl (filter structured ls))
                     = filter structured (output_lines (join_nl ls))"
    by simp
  have "same (handleProcessOutput w jobId (join_nl ls))
             (handleProcessOutput w jobId (join_nl (filter structured ls)))"
    using process_lines_same [OF same_refl, of jobId w "output_lines (join_nl ls)"]
    by (simp add: handleProcessOutput_def b split: option.splits)
  then show ?thesis
    using process_line_unstructured by (simp add: same_def)
qed

lemma mixed_lines:
  \<open>filter structured
     [''{"stage":"analysis"}'', ''{not json}'', ''Traceback (most recent call last):'',
      ''{"success":true}'']
   = [''{"stage":"analysis"}'', ''{"success":true}''] \<and>
   trim ''{not json}'' = ''{not json}'' \<and> startsWith ''{not json}'' ''{'' \<and>
   endsWith ''{not json}'' ''}'' \<and> JSON_parse ''{not json}'' = None\<close>
  by code_simp

theorem unparseable_lines_only_logged_witness:
  \<open>jobs (handleProcessOutput running_world ''job_1''
      (join_nl [''{"stage":"analysis"}'', ''{not json}'', ''Traceback (most recent call last):'',
                ''{"success":true}'']))
   = jobs (handleProcessOutput running_world ''job_1''
      (join_nl [''{"stage":"analysis"}'', ''{"success":true}''])) \<and>
   process_line ''job_1'' running_world ''{not json}''
   = emit (ConsoleLog ''Job job_1 non-JSON output: {not json}'') running_world\<close>
proof -
  have a: \<open>\<forall>l \<in> set [''{"stage":"analysis"}'', ''{not json}'',
            ''Traceback (most recent call last):'', ''{"success":true}'']. CHR 0x0A \<notin> set l\<close>
    by simp
  show ?thesis
    using unparseable_lines_only_logged [OF a, of running_world "''job_1''"] mixed_lines
    by (simp add: process_line_def try_record_def)
qed

section \<open>Chunks of the output stream\<close>

text \<open>
  Claim C4, as the code has it. Each chunk is split into lines on its own and nothing is
  kept from one chunk to the next. For every stream cut into chunks that each end with a
  line feed, handling the chunks one after the other is handling the whole stream at once,
  so every complete line is parsed as one record. A record cut in two by a chunk boundary
  is not put together again.
\<close>

theorem chunks_cut_at_line_ends:
  assumes "\<forall>c \<in> set chunks. endsWith c [CHR 0x0A]"
  shows "run w (map (\<lambda>c. (e, Stdout jobId c)) chunks) = handleProcessOutput w jobId (concat chunks)"
  using assms
proof (induction chunks rule: rev_induct)
  case Nil
  then show ?case by (simp add: run_def)
next
  case (snoc c cs)
  then have ih: "run w (map (\<lambda>c. (e, Stdout jobId c)) cs) = handleProcessOutput w jobId (concat cs)"
    by simp
  have step: "run w (map (\<lambda>c. (e, Stdout jobId c)) (cs @ [c]))
                = handleProcessOutput (handleProcessOutput w jobId (concat cs)) jobId c"
    using ih by (simp add: run_def)
  show ?case
  proof (cases "cs = []")
    case True
    with step show ?thesis by simp
  next
    case False
    with snoc.prems concat_ends_nl [of cs] obtain a where "concat cs = a @ [CHR 0x0A]"
      by auto
    with step two_chunks [of w jobId a c] show ?thesis by simp
  qed
qed

theorem chunks_cut_at_line_ends_witness:
  \<open>run running_world
      [(posix_env, Stdout ''job_1'' (''{"stage":"analysis"}'' @ [CHR 0x0A])),
       (posix_env, Stdout ''job_1'' (''{"success":true}'' @ [CHR 0x0A]))]
   = handleProcessOutput running_world ''job_1''
       (''{"stage":"analysis"}'' @ [CHR 0x0A] @ ''{"success":true}'' @ [CHR 0x0A])\<close>
proof -
  have a: \<open>\<forall>c \<in> set [''{"stage":"analysis"}'' @ [CHR 0x0A], ''{"success":true}'' @ [CHR 0x0A]].
             endsWith c [CHR 0x0A]\<close>
    by (simp add: endsWith_def suffix_def)
  show ?thesis
    using chunks_cut_at_line_ends [OF a, of running_world posix_env "''job_1''"] by simp
qed

lemma split_record_pieces:
  \<open>output_lines ''{"success":'' = [''{"success":''] \<and>
   trim ''{"success":'' = ''{"success":'' \<and>
   \<not> endsWith ''{"success":'' ''}'' \<and>
   output_lines (''true}'' @ [CHR 0x0A]) = [''true}''] \<and>
   trim ''true}'' = ''true}'' \<and>
   \<not> startsWith ''true}'' ''{'' \<and>
   output_lines (''{"success":'' @ ''true}'' @ [CHR 0x0A]) = [''{"success":true}'']\<close>
  by code_simp

text \<open>
  The claim as the specification states it fails: the record \<open>{"success":true}\<close> arrives
  in the chunks \<open>{"success":\<close> and \<open>true}\<close>; both pieces are logged as plain output and the
  job stays running, while the same text in one chunk completes it.
\<close>

theorem split_record_is_lost:
  \<open>status_of (run running_world
      [(posix_env, Stdout ''job_1'' ''{"success":''),
       (posix_env, Stdout ''job_1'' (''true}'' @ [CHR 0x0A]))]) ''job_1'' = Some Running \<and>
   effects (run running_world
      [(posix_env, Stdout ''job_1'' ''{"success":''),
       (posix_env, Stdout ''job_1'' (''true}'' @ [CHR 0x0A]))])
     = [ConsoleLog ''Job job_1 output: {"success":'', ConsoleLog ''Job job_1 output: true}''] \<and>
   status_of (run running_world
      [(posix_env, Stdout ''job_1'' (''{"success":'' @ ''true}'' @ [CHR 0x0A]))]) ''job_1''
     = Some Completed\<close>
proof -
  have \<open>handleProcessOutput running_world ''job_1'' (''{"success":'' @ ''true}'' @ [CHR 0x0A])
          = handleProcessOutput running_world ''job_1'' ''{"success":true}''\<close>
    using split_record_pieces lines_success_true
    by (simp add: handleProcessOutput_def jobs_running_world)
  then have whole: \<open>handleProcessOutput running_world ''job_1'' (''{"success":'' @ ''true}'' @ [CHR 0x0A])
                = write_record running_world ''job_1'' running_job [(''success'', JBool True)]\<close>
    using stdout_success_true [OF jobs_running_world] by simp
  have first: \<open>handleProcessOutput running_world ''job_1'' ''{"success":''
                = emit (ConsoleLog ''Job job_1 output: {"success":'') running_world\<close>
    using jobs_running_world split_record_pieces
    by (simp add: handleProcessOutput_def process_line_def)
  have second: \<open>handleProcessOutput (emit (ConsoleLog ''Job job_1 output: {"success":'') running_world)
                   ''job_1'' (''true}'' @ [CHR 0x0A])
                = emit (ConsoleLog ''Job job_1 output: true}'')
                    (emit (ConsoleLog ''Job job_1 output: {"success":'') running_world)\<close>
    using jobs_running_world split_record_pieces
    by (simp add: handleProcessOutput_def process_line_def)
  have eff: "effects running_world = []"
    by (simp add: running_world_def)
  show ?thesis
    using jobs_running_world
    by (simp add: run_def whole [simplified] first second [simplified] status_of_write_record
        truthy_success_true status_of_def [of running_world] running_job_def eff)
qed

section \<open>Batch requests and concurrency\<close>

text \<open>
  Claim C5, as the code has it. A batch request over a directory, whatever the number of
  its files, creates one job and spawns one worker process with the arguments
  \<open>photo_editor.py batch <directory> --output-dir <directory> --json-output\<close>; the files
  of the directory are no jobs of the registry. There is no queue and no limit: every
  accepted call of \<open>startProcessing\<close> spawns its process at once and adds its job to the
  running ones, whatever the registry holds. The job reaches completed or failed when the
  exit notification of its process arrives.
\<close>

theorem every_start_spawns_at_once:
  assumes "trim (o_inputPath opts) \<noteq> []" and "existsSync e (o_inputPath opts)"
    and "resolve_outputDir e opts = Some d" and "existsSync e d \<or> mkdirSync e d"
    and "spawn e = Some c"
  shows "fst (startProcessing e w opts) = Inr (generateJobId e) \<and>
         jobs (snd (startProcessing e w opts))
           = (jobs w)(generateJobId e \<mapsto>
               (initial_job (generateJobId e) (o_inputPath opts))
                 \<lparr>outputPath := Some (JString d), process := Some c, status := Running\<rparr>) \<and>
         running_jobs (snd (startProcessing e w opts)) = insert (generateJobId e) (running_jobs w) \<and>
         filter is_spawn (effects (snd (startProcessing e w opts)))
           = filter is_spawn (effects w) @
             [Spawn (pythonExecutable e) (build_args opts d) (projectRoot e) (process_PATH e)
                (process_VIRTUAL_ENV e)] \<and>
         (o_mode opts = Batch \<longrightarrow>
            build_args opts d = [''photo_editor.py'', ''batch'', o_inputPath opts, ''--output-dir'', d,
              ''--json-output''] @ drop 6 (build_args opts d)) \<and>
         status_of (onClose e' (snd (startProcessing e w opts)) (generateJobId e) code) (generateJobId e)
           = Some (if code = Some 0 then Completed else Failed)"
proof -
  note ok = start_ok [OF assms, of w]
  have args: "o_mode opts = Batch \<longrightarrow>
            build_args opts d = [''photo_editor.py'', ''batch'', o_inputPath opts, ''--output-dir'', d,
              ''--json-output''] @ drop 6 (build_args opts d)"
    by (simp add: build_args_def)
  have close: "status_of (onClose e' (snd (startProcessing e w opts)) (generateJobId e) code) (generateJobId e)
           = Some (if code = Some 0 then Completed else Failed)"
    using ok by (simp add: status_of_onClose)
  show ?thesis
    using ok start_running_jobs [OF assms, of w] args close by simp
qed

text \<open>The batch request over the directory of ten photographs.\<close>

theorem every_start_spawns_at_once_witness:
  "fst (startProcessing posix_env empty_world batch_opts) = Inr ''job_1'' \<and>
   running_jobs (snd (startProcessing posix_env empty_world batch_opts)) = {''job_1''} \<and>
   filter is_spawn (effects (snd (startProcessing posix_env empty_world batch_opts)))
     = [Spawn ''python3''
          [''photo_editor.py'', ''batch'', ''/photos'', ''--output-dir'', ''/photos'', ''--json-output'']
          ''/app'' (Some ''/usr/bin'') None] \<and>
   status_of (onClose posix_env (snd (startProcessing posix_env empty_world batch_opts)) ''job_1'' (Some 0))
     ''job_1'' = Some Completed"
proof -
  have a: "trim (o_inputPath batch_opts) \<noteq> []" and b: "existsSync posix_env (o_inputPath batch_opts)"
    and c: "resolve_outputDir posix_env batch_opts = Some ''/photos''"
    and d: "existsSync posix_env ''/photos'' \<or> mkdirSync posix_env ''/photos''"
    and e: "spawn posix_env = Some 1"
    using batch_request by simp_all
  have eff: "effects empty_world = []"
    by (simp add: empty_world_def)
  show ?thesis
    using every_start_spawns_at_once [OF a b c d e, of empty_world posix_env "Some 0"]
      batch_request running_jobs_empty eff
    by simp
qed

text \<open>
  The claim as the specification states it fails: the batch request over the ten
  photographs leaves one job in the registry, not ten, and four requests in a row leave
  four jobs running at the same time.
\<close>

theorem batch_is_one_job_without_cap:
  "readdirSync posix_env ''/photos'' = Some photos \<and>
   length (filter is_image_file photos) = 10 \<and>
   card (dom (jobs (snd (startProcessing posix_env empty_world batch_opts)))) = 1 \<and>
   card (running_jobs (start_each empty_world
      [(env_for ''job_1'' 1, file_opts ''p01.jpg''), (env_for ''job_2'' 2, file_opts ''p02.jpg''),
       (env_for ''job_3'' 3, file_opts ''p03.jpg''), (env_for ''job_4'' 4, file_opts ''p04.jpg'')])) = 4"
proof -
  have a: "trim (o_inputPath batch_opts) \<noteq> []" and b: "existsSync posix_env (o_inputPath batch_opts)"
    and c: "resolve_outputDir posix_env batch_opts = Some ''/photos''"
    and d: "existsSync posix_env ''/photos'' \<or> mkdirSync posix_env ''/photos''"
    and e: "spawn posix_env = Some 1"
    using batch_request by simp_all
  have one: "card (dom (jobs (snd (startProcessing posix_env empty_world batch_opts)))) = 1"
    using start_ok [OF a b c d e, of empty_world] by (simp add: empty_world_def)
  have p: "''p01.jpg'' \<in> set photos" "''p02.jpg'' \<in> set photos" "''p03.jpg'' \<in> set photos"
    "''p04.jpg'' \<in> set photos"
    by (simp_all add: photos_def)
  have four: "running_jobs (start_each empty_world
      [(env_for ''job_1'' 1, file_opts ''p01.jpg''), (env_for ''job_2'' 2, file_opts ''p02.jpg''),
       (env_for ''job_3'' 3, file_opts ''p03.jpg''), (env_for ''job_4'' 4, file_opts ''p04.jpg'')])
     = {''job_1'', ''job_2'', ''job_3'', ''job_4''}"
    using p by (auto simp: start_each_def start_file_running running_jobs_empty)
  have c4: "card (running_jobs (start_each empty_world
      [(env_for ''job_1'' 1, file_opts ''p01.jpg''), (env_for ''job_2'' 2, file_opts ''p02.jpg''),
       (env_for ''job_3'' 3, file_opts ''p03.jpg''), (env_for ''job_4'' 4, file_opts ''p04.jpg'')])) = 4"
    unfolding four by simp
  show ?thesis
    using ten_photos one c4 by blast
qed

section \<open>The bound on nested calls in \<open>JSON_parse\<close>\<close>

text \<open>
  Every part of the parser returns a rest that is no longer than its input, so the calls
  \<open>JSON_parse\<close> allows are never used up: with any larger bound the result is the same.
\<close>

lemma skip_ws_length: "length (skip_ws s) \<le> length s"
  by (simp add: skip_ws_def length_dropWhile_le)

lemma skip_ws_Cons: "skip_ws s = c # cs \<Longrightarrow> length cs < length s"
  using skip_ws_length [of s] by simp

lemma parse_chars_length: "parse_chars s = Some (t, r) \<Longrightarrow> length r < length s"
proof (induction s arbitrary: t r rule: parse_chars.induct)
  case 1
  then show ?case by simp
next
  case (2 c cs)
  show ?case
    using "2.prems" "2.IH"
    by (fastforce split: if_splits list.splits option.splits prod.splits)
qed

lemma number_sign_length: "number_sign s = (b, r) \<Longrightarrow> length r \<le> length s"
  by (auto simp: number_sign_def split: list.splits if_splits)

lemma number_int_length: "number_int s = Some (d, r) \<Longrightarrow> length r \<le> length s"
  by (auto simp: number_int_def length_dropWhile_le split: if_splits)

lemma number_frac_length: "number_frac s = Some (d, r) \<Longrightarrow> length r \<le> length s"
  using length_dropWhile_le [of is_digit "tl s"]
  by (auto simp: number_frac_def split: list.splits if_splits)

lemma exp_sign_length: "exp_sign s = (b, r) \<Longrightarrow> length r \<le> length s"
  by (auto simp: exp_sign_def split: list.splits if_splits)

lemma number_exp_length: "number_exp s = Some (x, r) \<Longrightarrow> length r \<le> length s"
proof (cases s)
  case Nil
  then show "number_exp s = Some (x, r) \<Longrightarrow> length r \<le> length s"
    by (simp add: number_exp_def)
next
  case (Cons c cs)
  assume a: "number_exp s = Some (x, r)"
  obtain neg ds where es: "exp_sign cs = (neg, ds)" by (cases "exp_sign cs")
  have "length ds \<le> length cs" using es by (rule exp_sign_length)
  moreover have "length (dropWhile is_digit ds) \<le> length ds" by (rule length_dropWhile_le)
  ultimately show "length r \<le> length s"
    using a Cons es by (auto simp: number_exp_def split: if_splits)
qed

lemma parse_number_length: "parse_number s = Some (v, r) \<Longrightarrow> length r \<le> length s"
proof -
  assume a: "parse_number s = Some (v, r)"
  obtain neg s1 where p1: "number_sign s = (neg, s1)" by (cases "number_sign s")
  from a p1 obtain ip s2 where p2: "number_int s1 = Some (ip, s2)"
    by (cases "number_int s1") (auto simp: parse_number_def)
  from a p1 p2 obtain fp s3 where p3: "number_frac s2 = Some (fp, s3)"
    by (cases "number_frac s2") (auto simp: parse_number_def)
  from a p1 p2 p3 obtain e s4 where p4: "number_exp s3 = Some (e, s4)"
    by (cases "number_exp s3") (auto simp: parse_number_def)
  from a p1 p2 p3 p4 have "r = s4"
    by (simp add: parse_number_def)
  then show ?thesis
    using number_sign_length [OF p1] number_int_length [OF p2] number_frac_length [OF p3]
      number_exp_length [OF p4] by simp
qed

lemma parse_rest_length:
  "(\<forall>s v r. parse_value n s = Some (v, r) \<longrightarrow> length r \<le> length s) \<and>
   (\<forall>s vs r. parse_elements n s = Some (vs, r) \<longrightarrow> length r \<le> length s) \<and>
   (\<forall>s kvs r. parse_members n s = Some (kvs, r) \<longrightarrow> length r \<le> length s)"
proof (induction n)
  case 0
  then show ?case by simp
next
  case (Suc n)
  then have ihv: "\<And>s v r. parse_value n s = Some (v, r) \<Longrightarrow> length r \<le> length s"
    and ihe: "\<And>s vs r. parse_elements n s = Some (vs, r) \<Longrightarrow> length r \<le> length s"
    and ihm: "\<And>s kvs r. parse_members n s = Some (kvs, r) \<Longrightarrow> length r \<le> length s"
    by blast+
  have v: "length r \<le> length s" if a: "parse_value (Suc n) s = Some (v, r)" for s v r
  proof -
    from a obtain c cs where sk: "skip_ws s = c # cs"
      by (cases "skip_ws s") simp_all
    have lc: "length cs < length s" using sk by (rule skip_ws_Cons)
    have l0: "length (c # cs) \<le> length s" using skip_ws_length [of s] sk by simp
    consider (obj) "c = CHR ''{''" | (arr) "c \<noteq> CHR ''{''" "c = CHR ''[''"
      | (str) "c \<noteq> CHR ''{''" "c \<noteq> CHR ''[''" "c = CHR 0x22"
      | (other) "c \<noteq> CHR ''{''" "c \<noteq> CHR ''[''" "c \<noteq> CHR 0x22"
      by blast
    then show ?thesis
    proof cases
      case obj
      with a sk obtain d ds where sk2: "skip_ws cs = d # ds"
        by (cases "skip_ws cs") simp_all
      have ld: "length ds < length cs" using sk2 by (rule skip_ws_Cons)
      from a sk sk2 obj
      have "(d = CHR ''}'' \<and> r = ds) \<or> (\<exists>kvs. parse_members n (d # ds) = Some (kvs, r))"
        by (auto split: if_splits)
      then show ?thesis
        using ihm [of "d # ds" _ r] ld lc by auto
    next
      case arr
      with a sk obtain d ds where sk2: "skip_ws cs = d # ds"
        by (cases "skip_ws cs") simp_all
      have ld: "length ds < length cs" using sk2 by (rule skip_ws_Cons)
      from a sk sk2 arr
      have "(d = CHR '']'' \<and> r = ds) \<or> (\<exists>vs. parse_elements n (d # ds) = Some (vs, r))"
        by (auto split: if_splits)
      then show ?thesis
        using ihe [of "d # ds" _ r] ld lc by auto
    next
      case str
      with a sk have "\<exists>t. parse_chars cs = Some (t, r)"
        by auto
      then show ?thesis
        using parse_chars_length [of cs _ r] lc by auto
    next
      case other
      with a sk
      have "r = drop 4 (c # cs) \<or> r = drop 5 (c # cs) \<or> parse_number (c # cs) = Some (v, r)"
        by (auto split: if_splits)
      then show ?thesis
        using parse_number_length [of "c # cs" v r] l0 by auto
    qed
  qed
  have e: "length r \<le> length s" if a: "parse_elements (Suc n) s = Some (vs, r)" for s vs r
  proof -
    from a obtain v r1 where pv: "parse_value n s = Some (v, r1)"
      by (cases "parse_value n s") auto
    then have l1: "length r1 \<le> length s" by (rule ihv)
    from a pv obtain c cs where sk: "skip_ws r1 = c # cs"
      by (cases "skip_ws r1") simp_all
    have lc: "length cs < length r1" using sk by (rule skip_ws_Cons)
    from a pv sk
    have "(c = CHR '']'' \<and> r = cs) \<or> (\<exists>ws. parse_elements n cs = Some (ws, r))"
      by (auto split: if_splits)
    then show ?thesis
      using ihe [of cs _ r] l1 lc by auto
  qed
  have m: "length r \<le> length s" if a: "parse_members (Suc n) s = Some (kvs, r)" for s kvs r
  proof -
    from a obtain c cs where sk: "skip_ws s = c # cs"
      by (cases "skip_ws s") simp_all
    have lc: "length cs < length s" using sk by (rule skip_ws_Cons)
    from a sk obtain k r1 where pc: "parse_chars cs = Some (k, r1)"
      by (cases "parse_chars cs") (auto split: if_splits)
    have l1: "length r1 < length cs" using pc by (rule parse_chars_length)
    from a sk pc obtain d ds where sk2: "skip_ws r1 = d # ds"
      by (cases "skip_ws r1") (auto split: if_splits)
    have ld: "length ds < length r1" using sk2 by (rule skip_ws_Cons)
    from a sk pc sk2 obtain v r2 where pv: "parse_value n ds = Some (v, r2)"
      by (cases "parse_value n ds") (auto split: if_splits)
    then have l2: "length r2 \<le> length ds" by (rule ihv)
    from a sk pc sk2 pv obtain x xs where sk3: "skip_ws r2 = x # xs"
      by (cases "skip_ws r2") (auto split: if_splits)
    have lx: "length xs < length r2" using sk3 by (rule skip_ws_Cons)
    from a sk pc sk2 pv sk3
    have "(x = CHR ''}'' \<and> r = xs) \<or> (\<exists>ws. parse_members n xs = Some (ws, r))"
      by (auto split: if_splits)
    then show ?thesis
      using ihm [of xs _ r] lc l1 ld l2 lx by auto
  qed
  show ?case using v e m by blast
qed


lemma parse_value_rest: "parse_value n s = Some (v, r) \<Longrightarrow> length r \<le> length s"
  using parse_rest_length [of n] by blast

declare parse_value.simps [simp del] parse_elements.simps [simp del] parse_members.simps [simp del]

lemma fuel_stable:
  "(\<forall>s. 2 * length s + 1 \<le> n \<longrightarrow> parse_value (Suc n) s = parse_value n s) \<and>
   (\<forall>s. 2 * length s + 2 \<le> n \<longrightarrow> parse_elements (Suc n) s = parse_elements n s) \<and>
   (\<forall>s. 2 * length s + 2 \<le> n \<longrightarrow> parse_members (Suc n) s = parse_members n s)"
proof (induction n)
  case 0
  then show ?case by simp
next
  case (Suc n)
  then have ihv: "\<And>s. 2 * length s + 1 \<le> n \<Longrightarrow> parse_value (Suc n) s = parse_value n s"
    and ihe: "\<And>s. 2 * length s + 2 \<le> n \<Longrightarrow> parse_elements (Suc n) s = parse_elements n s"
    and ihm: "\<And>s. 2 * length s + 2 \<le> n \<Longrightarrow> parse_members (Suc n) s = parse_members n s"
    by blast+
  have v: "parse_value (Suc (Suc n)) s = parse_value (Suc n) s" if b: "2 * length s + 1 \<le> Suc n" for s
  proof (cases "skip_ws s")
    case Nil
    then show ?thesis
        unfolding parse_value.simps(2) [of "Suc n" s] parse_value.simps(2) [of n s] by simp
  next
    case (Cons c cs)
    then have lc: "length cs < length s" by (rule skip_ws_Cons)
    show ?thesis
    proof (cases "skip_ws cs")
      case Nil
      with Cons show ?thesis
        unfolding parse_value.simps(2) [of "Suc n" s] parse_value.simps(2) [of n s] by simp
    next
      case inner: (Cons d ds)
      then have "length ds < length cs" by (rule skip_ws_Cons)
      with lc b have bound: "2 * Suc (length ds) + 2 \<le> n"
        by simp
      have "parse_members (Suc n) t = parse_members n t"
        and "parse_elements (Suc n) t = parse_elements n t" if "length t = Suc (length ds)" for t
        using that bound ihm [of t] ihe [of t] by simp_all
      with Cons inner show ?thesis
        unfolding parse_value.simps(2) [of "Suc n" s] parse_value.simps(2) [of n s] by simp
    qed
  qed
  have e: "parse_elements (Suc (Suc n)) s = parse_elements (Suc n) s" if b: "2 * length s + 2 \<le> Suc n" for s
  proof -
    from b have "2 * length s + 1 \<le> n" by simp
    then have pv: "parse_value (Suc n) s = parse_value n s" by (rule ihv)
    show ?thesis
    proof (cases "parse_value n s")
      case None
      with pv show ?thesis
        unfolding parse_elements.simps(2) [of "Suc n" s] parse_elements.simps(2) [of n s] by simp
    next
      case (Some vr)
      obtain v r where vr: "vr = (v, r)" by (cases vr)
      with Some have lr: "length r \<le> length s" by (simp add: parse_value_rest)
      show ?thesis
      proof (cases "skip_ws r")
        case Nil
        with pv Some vr show ?thesis
        unfolding parse_elements.simps(2) [of "Suc n" s] parse_elements.simps(2) [of n s] by simp
      next
        case (Cons c cs)
        then have "length cs < length r" by (rule skip_ws_Cons)
        with lr b have "2 * length cs + 2 \<le> n" by simp
        then have "parse_elements (Suc n) cs = parse_elements n cs" by (rule ihe)
        with pv Some vr Cons show ?thesis
        unfolding parse_elements.simps(2) [of "Suc n" s] parse_elements.simps(2) [of n s] by simp
      qed
    qed
  qed
  have m: "parse_members (Suc (Suc n)) s = parse_members (Suc n) s" if b: "2 * length s + 2 \<le> Suc n" for s
  proof (cases "skip_ws s")
    case Nil
    then show ?thesis
        unfolding parse_members.simps(2) [of "Suc n" s] parse_members.simps(2) [of n s] by simp
  next
    case (Cons c cs)
    then have lc: "length cs < length s" by (rule skip_ws_Cons)
    show ?thesis
    proof (cases "parse_chars cs")
      case None
      with Cons show ?thesis
        unfolding parse_members.simps(2) [of "Suc n" s] parse_members.simps(2) [of n s] by simp
    next
      case (Some kr)
      obtain k r where kr: "kr = (k, r)" by (cases kr)
      with Some have lr: "length r < length cs" by (simp add: parse_chars_length)
      show ?thesis
      proof (cases "skip_ws r")
        case Nil
        with Cons Some kr show ?thesis
        unfolding parse_members.simps(2) [of "Suc n" s] parse_members.simps(2) [of n s] by simp
      next
        case colon: (Cons d ds)
        then have ld: "length ds < length r" by (rule skip_ws_Cons)
        with lr lc b have "2 * length ds + 1 \<le> n" by simp
        then have pv: "parse_value (Suc n) ds = parse_value n ds" by (rule ihv)
        show ?thesis
        proof (cases "parse_value n ds")
          case None
          with Cons Some kr colon pv show ?thesis
        unfolding parse_members.simps(2) [of "Suc n" s] parse_members.simps(2) [of n s] by simp
        next
          case val: (Some vr)
          obtain v r2 where vr: "vr = (v, r2)" by (cases vr)
          with val have l2: "length r2 \<le> length ds" by (simp add: parse_value_rest)
          show ?thesis
          proof (cases "skip_ws r2")
            case Nil
            with Cons Some kr colon pv val vr show ?thesis
        unfolding parse_members.simps(2) [of "Suc n" s] parse_members.simps(2) [of n s] by simp
          next
            case next_member: (Cons x xs)
            then have "length xs < length r2" by (rule skip_ws_Cons)
            with l2 ld lr lc b have "2 * length xs + 2 \<le> n" by simp
            then have "parse_members (Suc n) xs = parse_members n xs" by (rule ihm)
            with Cons Some kr colon pv val vr next_member show ?thesis
        unfolding parse_members.simps(2) [of "Suc n" s] parse_members.simps(2) [of n s] by simp
          qed
        qed
      qed
    qed
  qed
  show ?case using v e m by blast
qed

lemma fuel_for_length: "fuel_for s = 2 * length s + 2"
  by (induction s) simp_all

lemma fuel_enough: "fuel_for s \<le> n \<Longrightarrow> parse_value n s = parse_value (fuel_for s) s"
proof (induction n)
  case 0
  then show ?case by (simp add: fuel_for_length)
next
  case (Suc n)
  show ?case
  proof (cases "fuel_for s = Suc n")
    case True
    then show ?thesis by simp
  next
    case False
    with Suc.prems have le: "fuel_for s \<le> n" by simp
    then have "2 * length s + 1 \<le> n" by (simp add: fuel_for_length)
    then have "parse_value (Suc n) s = parse_value n s"
      using fuel_stable [of n] by blast
    with Suc.IH [OF le] show ?thesis by simp
  qed
qed

lemma JSON_parse_any_fuel:
  "fuel_for s \<le> n \<Longrightarrow>
   JSON_parse s =
     (case parse_value n s of
        None \<Rightarrow> None
      | Some (v, r) \<Rightarrow> if skip_ws r = [] then Some (dedup_keys v) else None)"
  using fuel_enough [of s n] by (simp add: JSON_parse_def)

end
